theory Spec2Isabelle
  imports Main "HOL-Library.Char_ord"
begin

section \<open>Errors\<close>

text \<open>
  Every exception the modelled code can throw is a value. \<open>TypeError\<close> is what JavaScript
  raises on a property read from \<open>undefined\<close>; \<open>AxiosError\<close> is a rejected HTTP request
  (connection failure or a status outside 2xx); \<open>Error\<close> is \<open>new Error(message)\<close>;
  \<open>SystemError\<close> is an error object handed over by Node (stream, spawn).
\<close>

datatype error = TypeError | AxiosError string | Error string | SystemError string

section \<open>JavaScript string primitives used by the loader\<close>

text \<open>\<open>strip_prefix p s\<close> is \<open>Some rest\<close> when \<open>s\<close> starts with \<open>p\<close> (and \<open>s = p @ rest\<close>).\<close>

fun strip_prefix :: "string \<Rightarrow> string \<Rightarrow> string option" where
  "strip_prefix [] s = Some s"
| "strip_prefix (p # ps) [] = None"
| "strip_prefix (p # ps) (c # cs) = (if p = c then strip_prefix ps cs else None)"

text \<open>\<open>String.prototype.startsWith\<close>.\<close>

definition startsWith :: "string \<Rightarrow> string \<Rightarrow> bool" where
  "startsWith s p = (strip_prefix p s \<noteq> None)"

text \<open>
  The first occurrence of \<open>pat\<close> in \<open>s\<close>, scanning from the left: the text before it and the
  text after it.
\<close>

fun find_first :: "string \<Rightarrow> string \<Rightarrow> (string \<times> string) option" where
  "find_first pat [] = (if pat = [] then Some ([], []) else None)"
| "find_first pat (c # cs) =
     (case strip_prefix pat (c # cs) of
        Some rest \<Rightarrow> Some ([], rest)
      | None \<Rightarrow> (case find_first pat cs of
                   Some (pre, post) \<Rightarrow> Some (c # pre, post)
                 | None \<Rightarrow> None))"

text \<open>\<open>String.prototype.includes\<close>.\<close>

definition includes_str :: "string \<Rightarrow> string \<Rightarrow> bool" where
  "includes_str s pat = (find_first pat s \<noteq> None)"

text \<open>
  The replacement text of \<open>String.prototype.replace\<close> when the replacement is a string and
  the pattern is a string (so there are no capture groups): \<open>$$\<close> is a dollar sign,
  \<open>$&\<close> the matched text, \<open>$`\<close> the text before the match, \<open>$'\<close> the text after it;
  every other character, and a dollar sign followed by anything else, stands for itself.
\<close>

fun GetSubstitution :: "string \<Rightarrow> string \<Rightarrow> string \<Rightarrow> string \<Rightarrow> string" where
  "GetSubstitution matched pre post [] = []"
| "GetSubstitution matched pre post [c] = [c]"
| "GetSubstitution matched pre post (c # d # t) =
     (if c = CHR ''$'' then
        (if d = CHR ''$'' then CHR ''$'' # GetSubstitution matched pre post t
         else if d = CHR ''&'' then matched @ GetSubstitution matched pre post t
         else if d = CHR 0x60 then pre @ GetSubstitution matched pre post t
         else if d = CHR 0x27 then post @ GetSubstitution matched pre post t
         else c # GetSubstitution matched pre post (d # t))
      else c # GetSubstitution matched pre post (d # t))"

text \<open>
  \<open>s.replace(pat, rep)\<close> with a string pattern and a string replacement: only the first
  occurrence is replaced, and \<open>s\<close> is returned as it is when \<open>pat\<close> does not occur.
\<close>

definition replace_str :: "string \<Rightarrow> string \<Rightarrow> string \<Rightarrow> string" where
  "replace_str s pat rep =
     (case find_first pat s of
        None \<Rightarrow> s
      | Some (pre, post) \<Rightarrow> pre @ GetSubstitution pat pre post rep @ post)"

text \<open>
  \<open>s.replaceAll(c, rep)\<close> for a one-character pattern \<open>c\<close> and a replacement without
  dollar patterns (the loader only calls it with the empty replacement).
\<close>

definition replaceAll_char :: "string \<Rightarrow> char \<Rightarrow> string \<Rightarrow> string" where
  "replaceAll_char s c rep = concat (map (\<lambda>x. if x = c then rep else [x]) s)"

section \<open>The token grammar\<close>

text \<open>
  \<^verbatim>\<open>const REGEX = /@(?:class|layout|module):([a-zA-Z0-9_-]+)(?:::([a-zA-Z0-9_-]+))?/g;\<close>
\<close>

definition is_ident_char :: "char \<Rightarrow> bool" where
  "is_ident_char c =
     ((CHR ''a'' \<le> c \<and> c \<le> CHR ''z'') \<or> (CHR ''A'' \<le> c \<and> c \<le> CHR ''Z'') \<or>
      (CHR ''0'' \<le> c \<and> c \<le> CHR ''9'') \<or> c = CHR ''_'' \<or> c = CHR ''-'')"

text \<open>
  The alternation \<open>(?:class|layout|module)\<close>: the first alternative that is a prefix of
  the input. No two alternatives start with the same character, so trying a later
  alternative after an earlier one matched can never succeed.
\<close>

fun match_alt :: "string list \<Rightarrow> string \<Rightarrow> (string \<times> string) option" where
  "match_alt [] s = None"
| "match_alt (k # ks) s =
     (case strip_prefix k s of Some r \<Rightarrow> Some (k, r) | None \<Rightarrow> match_alt ks s)"

text \<open>
  One attempt of \<open>REGEX\<close> at the start of \<open>s\<close>: the matched text \<open>match[0]\<close>, the first
  group \<open>p1\<close>, the second group \<open>p2\<close> (\<open>None\<close> is JavaScript's \<open>undefined\<close>, for a group that
  did not take part) and the text after the match. Both identifier groups are greedy;
  the colon is no identifier character, so the first group always takes every
  identifier character there is, and the optional group is taken whenever \<open>::\<close> and at
  least one identifier character follow.
\<close>

definition REGEX_at :: "string \<Rightarrow> (string \<times> string \<times> string option \<times> string) option" where
  "REGEX_at s =
     (case strip_prefix ''@'' s of
        None \<Rightarrow> None
      | Some s1 \<Rightarrow>
     (case match_alt [''class'', ''layout'', ''module''] s1 of
        None \<Rightarrow> None
      | Some (kw, s2) \<Rightarrow>
     (case strip_prefix '':'' s2 of
        None \<Rightarrow> None
      | Some s3 \<Rightarrow>
          (let p1 = takeWhile is_ident_char s3; s4 = dropWhile is_ident_char s3 in
           if p1 = [] then None
           else (case strip_prefix ''::'' s4 of
                   None \<Rightarrow> Some (''@'' @ kw @ '':'' @ p1, p1, None, s4)
                 | Some s5 \<Rightarrow>
                     (let p2 = takeWhile is_ident_char s5; s6 = dropWhile is_ident_char s5 in
                      if p2 = [] then Some (''@'' @ kw @ '':'' @ p1, p1, None, s4)
                      else Some (''@'' @ kw @ '':'' @ p1 @ ''::'' @ p2, p1, Some p2, s6)))))))"

text \<open>
  A global scan of the text with \<open>REGEX\<close>, as \<open>matchAll\<close> and \<open>replace\<close> do it: at each
  position the pattern is tried; a match is consumed whole and scanning goes on behind
  it, otherwise one character is passed over.
\<close>

datatype piece = Lit char | Tok string string "string option"

lemma strip_prefix_append: "strip_prefix p s = Some r \<Longrightarrow> s = p @ r"
  by (induction p s rule: strip_prefix.induct) (auto split: if_splits)

lemma match_alt_append: "match_alt ks s = Some (k, r) \<Longrightarrow> s = k @ r \<and> k \<in> set ks"
  by (induction ks) (auto split: option.splits dest: strip_prefix_append)

lemma REGEX_at_append:
  assumes "REGEX_at s = Some (m, p1, p2, rest)"
  shows "s = m @ rest \<and> m \<noteq> []"
proof -
  from assms obtain s1 where s1: "strip_prefix ''@'' s = Some s1"
    unfolding REGEX_at_def by (auto split: option.splits)
  from assms s1 obtain kw s2 where kw: "match_alt [''class'', ''layout'', ''module''] s1 = Some (kw, s2)"
    unfolding REGEX_at_def by (auto split: option.splits)
  from assms s1 kw obtain s3 where s3: "strip_prefix '':'' s2 = Some s3"
    unfolding REGEX_at_def by (auto split: option.splits)
  have e1: "s = ''@'' @ s1" using s1 by (rule strip_prefix_append)
  have e2: "s1 = kw @ s2" using match_alt_append [OF kw] by (rule conjunct1)
  have e3: "s2 = '':'' @ s3" using s3 by (rule strip_prefix_append)
  define q1 where "q1 = takeWhile is_ident_char s3"
  define s4 where "s4 = dropWhile is_ident_char s3"
  have e4: "s3 = q1 @ s4" by (simp add: q1_def s4_def)
  have whole: "s = ''@'' @ kw @ '':'' @ q1 @ s4" using e1 e2 e3 e4 by simp
  have body: "(case strip_prefix ''::'' s4 of
                 None \<Rightarrow> Some (''@'' @ kw @ '':'' @ q1, q1, None, s4)
               | Some s5 \<Rightarrow>
                   (let p2 = takeWhile is_ident_char s5; s6 = dropWhile is_ident_char s5 in
                    if p2 = [] then Some (''@'' @ kw @ '':'' @ q1, q1, None, s4)
                    else Some (''@'' @ kw @ '':'' @ q1 @ ''::'' @ p2, q1, Some p2, s6)))
              = Some (m, p1, p2, rest)"
    using assms s1 kw s3 unfolding REGEX_at_def q1_def s4_def Let_def
    by (simp split: if_splits)
  show ?thesis
  proof (cases "strip_prefix ''::'' s4")
    case None
    with body whole show ?thesis by auto
  next
    case (Some s5)
    then have e5: "s4 = ''::'' @ s5" by (rule strip_prefix_append)
    show ?thesis
    proof (cases "takeWhile is_ident_char s5 = []")
      case True
      with body Some whole show ?thesis by (auto simp: Let_def)
    next
      case False
      with body Some have m: "m = ''@'' @ kw @ '':'' @ q1 @ ''::'' @ takeWhile is_ident_char s5"
        and r: "rest = dropWhile is_ident_char s5"
        by (auto simp: Let_def)
      have "s = ''@'' @ kw @ '':'' @ q1 @ ''::'' @ (takeWhile is_ident_char s5 @ dropWhile is_ident_char s5)"
        using whole e5 by (simp only: takeWhile_dropWhile_id)
      then show ?thesis using m r by simp
    qed
  qed
qed

lemma REGEX_at_shorter: "REGEX_at s = Some (m, p1, p2, rest) \<Longrightarrow> length rest < length s"
  using REGEX_at_append [of s m p1 p2 rest] by auto

function scan :: "string \<Rightarrow> piece list" where
  "scan [] = []"
| "scan (c # cs) =
     (case REGEX_at (c # cs) of
        Some (m, p1, p2, rest) \<Rightarrow> Tok m p1 p2 # scan rest
      | None \<Rightarrow> Lit c # scan cs)"
  by pat_completeness auto
termination
  by (relation "measure length") (auto dest: REGEX_at_shorter)

text \<open>\<open>[...source.matchAll(REGEX)]\<close>: the matches in extraction order.\<close>

fun matches_of :: "piece list \<Rightarrow> (string \<times> string \<times> string option) list" where
  "matches_of [] = []"
| "matches_of (Lit c # ps) = matches_of ps"
| "matches_of (Tok m p1 p2 # ps) = (m, p1, p2) # matches_of ps"

definition matchAll :: "string \<Rightarrow> (string \<times> string \<times> string option) list" where
  "matchAll s = matches_of (scan s)"

text \<open>
  \<open>source.replace(REGEX, callback)\<close>: every match is replaced by what the callback
  returns for it (taken literally, without dollar patterns); the callbacks run from
  left to right and the first exception ends the call.
\<close>

fun replace_pieces ::
  "(string \<Rightarrow> string \<Rightarrow> string option \<Rightarrow> error + string) \<Rightarrow> piece list \<Rightarrow> error + string" where
  "replace_pieces f [] = Inr []"
| "replace_pieces f (Lit c # ps) =
     (case replace_pieces f ps of Inl e \<Rightarrow> Inl e | Inr out \<Rightarrow> Inr (c # out))"
| "replace_pieces f (Tok m p1 p2 # ps) =
     (case f m p1 p2 of
        Inl e \<Rightarrow> Inl e
      | Inr r \<Rightarrow> (case replace_pieces f ps of Inl e \<Rightarrow> Inl e | Inr out \<Rightarrow> Inr (r @ out)))"

definition replace_regex ::
  "(string \<Rightarrow> string \<Rightarrow> string option \<Rightarrow> error + string) \<Rightarrow> string \<Rightarrow> error + string" where
  "replace_regex f s = replace_pieces f (scan s)"

section \<open>The loader\<close>

subsection \<open>The build artifact and the module-level constants\<close>

text \<open>
  \<open>GaladrielBuildType\<close>, as the loader declares it. A \<open>Record<string, string>\<close> is given
  by its own keys and their strings. The artifact is taken to have the declared shape
  (\<open>JSON.parse\<close> is cast, not checked).
\<close>

record trackingClasses =
  central :: "string \<rightharpoonup> string"
  layouts :: "string \<rightharpoonup> (string \<rightharpoonup> string)"
  modules :: "string \<rightharpoonup> (string \<rightharpoonup> string)"

record GaladrielBuildType =
  css :: string
  trackingClasses :: trackingClasses

text \<open>
  What a property read can yield, as far as the loader tells values apart: \<open>undefined\<close>, a
  string, a value that is truthy and no string (an object, a function, a number other
  than 0, \<open>true\<close>), and a value that is falsy and no string (\<open>null\<close>, 0, \<open>NaN\<close>, \<open>false\<close>).
\<close>

datatype jsval = JUndefined | JString string | JTruthy | JFalsy

text \<open>
  What the loader module fixes when it is loaded, and what it runs in.
  \<open>GALADRIEL_BUILD_DATA\<close> is \<open>None\<close> where the source has \<open>null\<close>. \<open>axios_get url\<close> is the
  outcome of \<open>(await axios.get(url)).data\<close>: the body, or the error the request rejects
  with. \<open>settle_time i\<close> is the moment at which the \<open>i\<close>-th request of one file settles,
  so that every completion order of the requests is some \<open>settle_time\<close>.
  \<open>inherited_member name key\<close> is what the JavaScript runtime gives for the read of
  property \<open>key\<close> from the value that plain objects inherit under \<open>name\<close> (for
  \<open>constructor\<close> and \<open>name\<close> the string \<open>Object\<close>, for instance): a value, or the \<open>TypeError\<close>
  that the read throws.
\<close>

record loader_env =
  IS_GALADRIEL_BUILD :: bool
  GALADRIEL_SERVER_ADDR :: string
  GALADRIEL_BUILD_DATA :: "GaladrielBuildType option"
  axios_get :: "string \<Rightarrow> error + string"
  settle_time :: "nat \<Rightarrow> nat"
  inherited_member :: "string \<Rightarrow> string \<Rightarrow> error + jsval"

text \<open>
  The loader's input: webpack hands over a string, or something else (a buffer, here
  its bytes).
\<close>

datatype source = Str string | NonString "nat list"

definition directive :: string where
  "directive = ''@galadrielcss styles;''"

subsection \<open>Precompiled mode\<close>

text \<open>
  The tables of the artifact are plain objects made by \<open>JSON.parse\<close>, so a name that is
  not one of their own keys is looked up in \<open>Object.prototype\<close>. These are its property
  names; each of them yields a function, and \<open>__proto__\<close> yields \<open>Object.prototype\<close> itself.
\<close>

definition Object_prototype_names :: "string list" where
  "Object_prototype_names =
     [''constructor'', ''__defineGetter__'', ''__defineSetter__'', ''hasOwnProperty'',
      ''__lookupGetter__'', ''__lookupSetter__'', ''isPrototypeOf'', ''propertyIsEnumerable'',
      ''toString'', ''valueOf'', ''__proto__'', ''toLocaleString'']"

text \<open>\<open>obj[key]\<close> for a \<open>Record<string, string>\<close> with the own entries \<open>obj\<close>.\<close>

definition get_property :: "(string \<rightharpoonup> string) \<Rightarrow> string \<Rightarrow> jsval" where
  "get_property obj key =
     (case obj key of
        Some v \<Rightarrow> JString v
      | None \<Rightarrow> if key \<in> set Object_prototype_names then JTruthy else JUndefined)"

text \<open>
  The property key an optional group is used as: \<open>obj[undefined]\<close> reads the property
  named \<open>undefined\<close>.
\<close>

definition property_key :: "string option \<Rightarrow> string" where
  "property_key p = (case p of None \<Rightarrow> ''undefined'' | Some k \<Rightarrow> k)"

text \<open>
  \<^verbatim>\<open>trackingMap?.layouts[p1][p2]\<close> once \<open>trackingMap\<close> is there: \<open>layouts[p1]\<close> is read, and
  \<open>[p2]\<close> is read from what it yields. An own entry is a record again. A name that is
  neither an own key nor inherited yields \<open>undefined\<close>, and the read from it throws a
  \<open>TypeError\<close>. An inherited name yields a function or an object, and what the read of
  \<open>[p2]\<close> from that gives is \<open>inherited_member env p1 p2\<close>.
\<close>

definition nested_lookup ::
  "loader_env \<Rightarrow> (string \<rightharpoonup> (string \<rightharpoonup> string)) \<Rightarrow> string \<Rightarrow> string option \<Rightarrow> error + jsval" where
  "nested_lookup env table p1 p2 =
     (case table p1 of
        Some inner \<Rightarrow> Inr (get_property inner (property_key p2))
      | None \<Rightarrow>
          if p1 \<in> set Object_prototype_names then inherited_member env p1 (property_key p2)
          else Inl TypeError)"

text \<open>
  The value the callback of \<open>replaceNenyrMakrup\<close> looks up for a match. The optional chain
  \<open>trackingMap?.\<close> yields \<open>undefined\<close> when there is no build data.
\<close>

definition replaceValue_of ::
  "loader_env \<Rightarrow> string \<Rightarrow> string \<Rightarrow> string option \<Rightarrow> error + jsval" where
  "replaceValue_of env match p1 p2 =
     (let trackingMap = map_option trackingClasses (GALADRIEL_BUILD_DATA env) in
      if startsWith match ''@class'' then
        (case trackingMap of
           None \<Rightarrow> Inr JUndefined
         | Some t \<Rightarrow> Inr (get_property (central t) p1))
      else if startsWith match ''@layout'' then
        (case trackingMap of
           None \<Rightarrow> Inr JUndefined
         | Some t \<Rightarrow> nested_lookup env (layouts t) p1 p2)
      else if startsWith match ''@module'' then
        (case trackingMap of
           None \<Rightarrow> Inr JUndefined
         | Some t \<Rightarrow> nested_lookup env (modules t) p1 p2)
      else Inr JUndefined)"

text \<open>
  The callback that \<open>replaceNenyrMakrup\<close> passes to \<open>source.replace(REGEX, ...)\<close>. A falsy
  value keeps the match; a truthy value that is no string has no \<open>replaceAll\<close>, so the call
  throws a \<open>TypeError\<close>.
\<close>

definition replaceCallback ::
  "loader_env \<Rightarrow> string \<Rightarrow> string \<Rightarrow> string option \<Rightarrow> error + string" where
  "replaceCallback env match p1 p2 =
     (case replaceValue_of env match p1 p2 of
        Inl e \<Rightarrow> Inl e
      | Inr replaceValue \<Rightarrow>
          (case replaceValue of
             JUndefined \<Rightarrow> Inr match
           | JFalsy \<Rightarrow> Inr match
           | JString v \<Rightarrow> if v = [] then Inr match else Inr (replaceAll_char v (CHR 0x5C) [])
           | JTruthy \<Rightarrow> Inl TypeError))"

definition replaceNenyrMakrup :: "loader_env \<Rightarrow> string \<Rightarrow> error + string" where
  "replaceNenyrMakrup env source = replace_regex (replaceCallback env) source"

definition replaceCss :: "loader_env \<Rightarrow> string \<Rightarrow> string" where
  "replaceCss env source =
     (case map_option css (GALADRIEL_BUILD_DATA env) of
        None \<Rightarrow> source
      | Some c \<Rightarrow> if c = [] then source else replace_str source directive c)"

subsection \<open>Live mode\<close>

text \<open>The URL \<open>retrieveUtilityClassnames\<close> asks for.\<close>

definition requestUrl :: "string \<Rightarrow> string \<Rightarrow> string" where
  "requestUrl addr match =
     (let formattedMatch = replace_str (replace_str match ''::'' ''/'') '':'' ''/'' in
      if startsWith match ''@class''
      then addr @ ''/collect-utility-class-names/'' @ formattedMatch @ ''/none''
      else addr @ ''/collect-utility-class-names/'' @ formattedMatch)"

text \<open>
  \<open>Promise.all\<close> over requests that are all in flight: it rejects with the error of the
  request that is the first to fail (the earlier index when two settle together), and
  otherwise fulfils with all the results in the order of the requests.
\<close>

fun first_rejection :: "(nat \<Rightarrow> nat) \<Rightarrow> nat \<Rightarrow> (error + 'a) list \<Rightarrow> (nat \<times> error) option" where
  "first_rejection t i [] = None"
| "first_rejection t i (Inr v # rs) = first_rejection t (Suc i) rs"
| "first_rejection t i (Inl e # rs) =
     (case first_rejection t (Suc i) rs of
        None \<Rightarrow> Some (t i, e)
      | Some (tj, e') \<Rightarrow> if tj < t i then Some (tj, e') else Some (t i, e))"

fun fulfilled :: "(error + 'a) list \<Rightarrow> 'a list" where
  "fulfilled [] = []"
| "fulfilled (Inr v # rs) = v # fulfilled rs"
| "fulfilled (Inl e # rs) = fulfilled rs"

definition Promise_all :: "(nat \<Rightarrow> nat) \<Rightarrow> (error + 'a) list \<Rightarrow> error + 'a list" where
  "Promise_all t rs =
     (case first_rejection t 0 rs of
        Some (tj, e) \<Rightarrow> Inl e
      | None \<Rightarrow> Inr (fulfilled rs))"

text \<open>
  The \<open>forEach\<close> of \<open>asyncReplaceNenyrMakrup\<close>: for each match in extraction order, the
  first occurrence of the match's text in the text rewritten so far is replaced by the
  response for that match.
\<close>

fun substitute_each :: "string \<Rightarrow> (string \<times> string) list \<Rightarrow> string" where
  "substitute_each transformedSource [] = transformedSource"
| "substitute_each transformedSource ((m, transformedContent) # rest) =
     substitute_each (replace_str transformedSource m transformedContent) rest"

text \<open>
  The asynchronous functions return the requests they issue (in the order they issue
  them) next to their outcome. All the requests of \<open>asyncReplaceNenyrMakrup\<close> are issued
  by the \<open>map\<close>, before anything is awaited.
\<close>

definition asyncReplaceNenyrMakrup :: "loader_env \<Rightarrow> string \<Rightarrow> string list \<times> (error + string)" where
  "asyncReplaceNenyrMakrup env source =
     (let matches = map fst (matchAll source);
          requests = map (requestUrl (GALADRIEL_SERVER_ADDR env)) matches;
          promises = map (axios_get env) requests
      in (requests,
          case Promise_all (settle_time env) promises of
            Inl e \<Rightarrow> Inl e
          | Inr transformedMatches \<Rightarrow>
              Inr (substitute_each source (zip matches transformedMatches))))"

definition asyncReplaceCss :: "loader_env \<Rightarrow> string \<Rightarrow> string list \<times> (error + string)" where
  "asyncReplaceCss env source =
     (let request = GALADRIEL_SERVER_ADDR env @ ''/fetch-css'' in
      ([request],
       case axios_get env request of
         Inl e \<Rightarrow> Inl e
       | Inr c \<Rightarrow> Inr (replace_str source directive c)))"

subsection \<open>The entry point\<close>

text \<open>
  \<open>galadrielWebpackLoader\<close>: the requests issued, and what is handed to webpack's
  callback (\<open>Inl\<close> the error, \<open>Inr\<close> the transformed content). Every error of the model is
  an instance of \<open>Error\<close>, so the \<open>catch\<close> block hands it over as it is.
\<close>

definition galadrielWebpackLoader ::
  "loader_env \<Rightarrow> source \<Rightarrow> string list \<times> (error + source)" where
  "galadrielWebpackLoader env source =
     (case source of
        NonString b \<Rightarrow> ([], Inr (NonString b))
      | Str s \<Rightarrow>
          if includes_str s directive then
            (if IS_GALADRIEL_BUILD env
             then ([], Inr (Str (replaceCss env s)))
             else (case asyncReplaceCss env s of
                     (reqs, r) \<Rightarrow> (reqs, map_sum id Str r)))
          else
            (if IS_GALADRIEL_BUILD env
             then ([], map_sum id Str (replaceNenyrMakrup env s))
             else (case asyncReplaceNenyrMakrup env s of
                     (reqs, r) \<Rightarrow> (reqs, map_sum id Str r))))"

section \<open>The plugin\<close>

subsection \<open>Platform resolver\<close>

text \<open>
  \<open>detectLinuxDistro\<close> and \<open>verifyOS\<close> of the plugin. \<open>probe\<close> is the outcome of
  \<^verbatim>\<open>execSync("ldd $(which ls)")\<close>: its output, or the error it throws. \<open>None\<close> is \<open>null\<close>.
\<close>

definition detectLinuxDistro :: "error + string \<Rightarrow> string option" where
  "detectLinuxDistro probe =
     (case probe of
        Inr result \<Rightarrow>
          if includes_str result ''musl'' then Some ''x86_64-unknown-linux-musl''
          else Some ''x86_64-unknown-linux-gnu''
      | Inl e \<Rightarrow> Some ''x86_64-unknown-linux-gnu'')"

definition verifyOS :: "error + string \<Rightarrow> string \<Rightarrow> string \<Rightarrow> string option" where
  "verifyOS probe platform architecture =
     (if platform = ''darwin'' then
        (if includes_str architecture ''x64'' then Some ''x86_64-apple-darwin''
         else Some ''aarch64-apple-darwin'')
      else if platform = ''win32'' \<and> includes_str architecture ''x64'' then
        Some ''x86_64-pc-windows-msvc''
      else if platform = ''linux'' \<and> includes_str architecture ''x64'' then
        detectLinuxDistro probe
      else None)"

text \<open>
  The older \<open>verifyOS\<close> of \<open>src/index.ts\<close>: on Linux it answers only when the probe
  reports \<open>musl\<close> or \<open>libc.so\<close>, and falls through to \<open>null\<close> otherwise.
\<close>

definition verifyOS_index :: "error + string \<Rightarrow> string \<Rightarrow> string \<Rightarrow> string option" where
  "verifyOS_index probe platform architecture =
     (if platform = ''darwin'' then
        (if includes_str architecture ''x64'' then Some ''x86_64-apple-darwin''
         else Some ''aarch64-apple-darwin'')
      else if platform = ''win32'' \<and> includes_str architecture ''x64'' then
        Some ''x86_64-pc-windows-msvc''
      else if platform = ''linux'' \<and> includes_str architecture ''x64'' then
        (case probe of
           Inr result \<Rightarrow>
             if includes_str result ''musl'' then Some ''x86_64-unknown-linux-musl''
             else if includes_str result ''libc.so'' then Some ''x86_64-unknown-linux-gnu''
             else None
         | Inl e \<Rightarrow> None)
      else None)"

subsection \<open>Install and build\<close>

text \<open>
  The host the plugin runs on, as far as install and build read it: \<open>os.platform()\<close>,
  \<open>os.arch()\<close> and the \<open>ldd\<close> probe; whether the write stream made by \<open>createWriteStream\<close>
  fails to open (\<open>writer_open\<close>, the error of its \<open>error\<close> event); the answer to the
  download request (\<open>axios_stream\<close>: a failure of the network, or the status of the
  response); how the piping of the response into the write stream ends; whether the
  binary exists when the stream has finished; whether \<open>chmodSync\<close> throws; and how the
  build process ends.
\<close>

datatype stream_end = Finish | WriteError error | BreaksOff

datatype spawn_end = SpawnError string | Close "int option" | NoExit

record host =
  os_platform :: string
  os_arch :: string
  ldd_probe :: "error + string"
  writer_open :: "error option"
  axios_stream :: "string \<Rightarrow> error + nat"
  stream_end :: stream_end
  binary_exists :: bool
  chmod_error :: "error option"
  spawn_build :: spawn_end

text \<open>
  Three errors carry a number in their message: \<open>RequestFailed n\<close> is the error with which
  \<open>axios.get\<close> rejects a response whose status \<open>n\<close> is outside 200 to 299, \<open>HttpStatus n\<close> is
  the error \<^verbatim>\<open>Failed to download Galadriel CSS. HTTP status: n\<close>, and \<open>ExitCode c\<close> is the
  error \<^verbatim>\<open>Process finished with error code: c\<close> (\<open>None\<close> for \<open>null\<close>).
\<close>

datatype failure = Thrown error | RequestFailed nat | HttpStatus nat | ExitCode "int option"

text \<open>
  What becomes of a promise: it is fulfilled, it is rejected, it never settles, or the
  process ends before it can settle, because an exception or an \<open>error\<close> event is not
  handled by anyone.
\<close>

datatype outcome = Fulfilled | Rejected failure | NeverSettles | ProcessDies error

definition downloadUrl :: "string \<Rightarrow> string \<Rightarrow> string" where
  "downloadUrl patch platform =
     ''https://github.com/patrickgunnar/galadrielcss/releases/latest/download/galadrielcss-''
       @ patch @ (if platform = ''win32'' then ''.exe'' else [])"

text \<open>
  \<open>installGaladrielCss\<close>. The write stream is created before the request is awaited, and
  its \<open>error\<close> listener is attached only after the response has come: a stream that fails
  to open emits its \<open>error\<close> event to no listener, which ends the process (the file is
  opened, or not, long before the response is there). A status other than 200 inside
  200 to 299 is thrown by the function itself. Once the response is piped, a write
  error rejects, \<open>finish\<close> resolves or rejects after \<open>existsSync\<close>, and a download that
  breaks off gives neither event. \<open>chmodSync\<close> runs inside the \<open>finish\<close> listener, so an
  exception of it is not caught by anyone.
\<close>

definition installGaladrielCss :: "host \<Rightarrow> outcome" where
  "installGaladrielCss h =
     (case verifyOS (ldd_probe h) (os_platform h) (os_arch h) of
        None \<Rightarrow>
          Rejected (Thrown (Error ''Unsupported OS or architecture. Galadriel CSS cannot run.''))
      | Some patch \<Rightarrow>
          (case writer_open h of
             Some err \<Rightarrow> ProcessDies err
           | None \<Rightarrow>
               (case axios_stream h (downloadUrl patch (os_platform h)) of
                  Inl e \<Rightarrow> Rejected (Thrown e)
                | Inr status \<Rightarrow>
                    if \<not> (200 \<le> status \<and> status < 300) then Rejected (RequestFailed status)
                    else if status \<noteq> 200 then Rejected (HttpStatus status)
                    else (case stream_end h of
                            WriteError err \<Rightarrow> Rejected (Thrown err)
                          | BreaksOff \<Rightarrow> NeverSettles
                          | Finish \<Rightarrow>
                              if binary_exists h then
                                (case chmod_error h of
                                   Some err \<Rightarrow> ProcessDies err
                                 | None \<Rightarrow> Fulfilled)
                              else Rejected (Thrown (Error ''Galadriel CSS binary not found!''))))))"

text \<open>
  \<open>startGaladrielBuild\<close>: resolves on exit code 0, rejects on any other code and on the
  \<open>error\<close> event of the process, and does not settle while the process does not exit.
\<close>

definition startGaladrielBuild :: "host \<Rightarrow> outcome" where
  "startGaladrielBuild h =
     (case spawn_build h of
        SpawnError message \<Rightarrow>
          Rejected (Thrown (Error (''Error executing Galadriel CSS build: '' @ message)))
      | Close code \<Rightarrow> if code = Some 0 then Fulfilled else Rejected (ExitCode code)
      | NoExit \<Rightarrow> NeverSettles)"

text \<open>
  What a run of the plugin does to the world, in order: a call of
  \<open>installGaladrielCss\<close>, a call of \<open>startGaladrielBuild\<close>, the \<open>console.error\<close> of the error
  caught by \<open>handleBeforeRun\<close>, an \<open>rmSync\<close> of the temporary folder.
\<close>

datatype effect = InstallCall | BuildCall | ConsoleError failure | RmSync

text \<open>
  \<open>handleBeforeRun\<close>, the handler tapped on \<open>beforeRun\<close>: the effects, and the outcome of
  the promise it returns. The \<open>try\<close> block awaits the install and then the build; the
  \<open>catch\<close> block logs whatever either of them rejected with and returns normally. An
  await that never settles, and the end of the process, are not for the \<open>catch\<close> block.
\<close>

definition handleBeforeRun :: "host \<Rightarrow> effect list \<times> outcome" where
  "handleBeforeRun h =
     (case installGaladrielCss h of
        Rejected e \<Rightarrow> ([InstallCall, ConsoleError e], Fulfilled)
      | NeverSettles \<Rightarrow> ([InstallCall], NeverSettles)
      | ProcessDies err \<Rightarrow> ([InstallCall], ProcessDies err)
      | Fulfilled \<Rightarrow>
          (case startGaladrielBuild h of
             Rejected e \<Rightarrow> ([InstallCall, BuildCall, ConsoleError e], Fulfilled)
           | NeverSettles \<Rightarrow> ([InstallCall, BuildCall], NeverSettles)
           | ProcessDies err \<Rightarrow> ([InstallCall, BuildCall], ProcessDies err)
           | Fulfilled \<Rightarrow> ([InstallCall, BuildCall], Fulfilled)))"

text \<open>
  The handler of the older \<open>src/index.ts\<close>, which awaits the two steps without a \<open>try\<close>
  block; it is given the outcomes of its own install and build steps.
\<close>

definition beforeRun_index :: "outcome \<Rightarrow> outcome \<Rightarrow> effect list \<times> outcome" where
  "beforeRun_index install build =
     (case install of
        Fulfilled \<Rightarrow> ([InstallCall, BuildCall], build)
      | Rejected e \<Rightarrow> ([InstallCall], Rejected e)
      | NeverSettles \<Rightarrow> ([InstallCall], NeverSettles)
      | ProcessDies err \<Rightarrow> ([InstallCall], ProcessDies err))"

subsection \<open>Lifecycle guard\<close>

text \<open>
  The two module-level flags, the handlers tapped so far (a compiler is a number; a
  compiler appears once for each handler tapped on its hook), whether the temporary
  folder \<open>.galadrielcss\<close> exists, and the effects so far.
\<close>

record plugin_state =
  hasRunGaladrielBuild :: bool
  hasRemovedGaladrielDir :: bool
  beforeRun_taps :: "nat list"
  done_taps :: "nat list"
  folder_exists :: bool
  effects :: "effect list"

definition initial_state :: "bool \<Rightarrow> plugin_state" where
  "initial_state folder =
     \<lparr>hasRunGaladrielBuild = False, hasRemovedGaladrielDir = False,
      beforeRun_taps = [], done_taps = [], folder_exists = folder, effects = []\<rparr>"

definition setupProductionHooks :: "nat \<Rightarrow> plugin_state \<Rightarrow> plugin_state" where
  "setupProductionHooks compiler st =
     (let st1 = (if \<not> hasRunGaladrielBuild st
                 then st\<lparr>hasRunGaladrielBuild := True,
                         beforeRun_taps := beforeRun_taps st @ [compiler]\<rparr>
                 else st)
      in st1\<lparr>done_taps := done_taps st1 @ [compiler]\<rparr>)"

text \<open>\<open>apply\<close>; \<open>production\<close> is \<^verbatim>\<open>process.env.NODE_ENV === "production"\<close>.\<close>

definition apply_plugin :: "bool \<Rightarrow> nat \<Rightarrow> plugin_state \<Rightarrow> plugin_state" where
  "apply_plugin production compiler st =
     (if production then setupProductionHooks compiler st else st)"

text \<open>
  One run of \<open>handleBeforeRun\<close> in a state. The install creates the folder (inside
  \<open>createFolderPathSync\<close>) once the platform is known to be supported.
\<close>

definition run_handleBeforeRun :: "host \<Rightarrow> plugin_state \<Rightarrow> plugin_state" where
  "run_handleBeforeRun h st =
     st\<lparr>effects := effects st @ fst (handleBeforeRun h),
        folder_exists :=
          (folder_exists st \<or> verifyOS (ldd_probe h) (os_platform h) (os_arch h) \<noteq> None)\<rparr>"

definition removeGaladrielTempFolder :: "plugin_state \<Rightarrow> plugin_state" where
  "removeGaladrielTempFolder st =
     (if folder_exists st
      then st\<lparr>folder_exists := False, effects := effects st @ [RmSync]\<rparr>
      else st)"

definition cleanupAfterBuild :: "plugin_state \<Rightarrow> plugin_state" where
  "cleanupAfterBuild st =
     (if \<not> hasRemovedGaladrielDir st
      then removeGaladrielTempFolder (st\<lparr>hasRemovedGaladrielDir := True\<rparr>)
      else st)"

text \<open>
  What happens to the plugin in one process, for as long as the process lives: it is
  applied to a compiler, or webpack fires the \<open>beforeRun\<close> or the \<open>done\<close> hook of a
  compiler, which runs every handler tapped on that hook.
\<close>

datatype event = Apply nat | BeforeRun nat | Done nat

fun times :: "nat \<Rightarrow> ('s \<Rightarrow> 's) \<Rightarrow> 's \<Rightarrow> 's" where
  "times 0 f st = st"
| "times (Suc n) f st = times n f (f st)"

definition step :: "host \<Rightarrow> plugin_state \<Rightarrow> event \<Rightarrow> plugin_state" where
  "step h st ev =
     (case ev of
        Apply c \<Rightarrow> apply_plugin True c st
      | BeforeRun c \<Rightarrow> times (count_list (beforeRun_taps st) c) (run_handleBeforeRun h) st
      | Done c \<Rightarrow> times (count_list (done_taps st) c) cleanupAfterBuild st)"

definition run :: "host \<Rightarrow> bool \<Rightarrow> event list \<Rightarrow> plugin_state" where
  "run h folder evs = foldl (step h) (initial_state folder) evs"

section \<open>Notions used in the statements\<close>

text \<open>The text a scan stands for: every piece back in its place.\<close>

fun text_of :: "piece list \<Rightarrow> string" where
  "text_of [] = []"
| "text_of (Lit c # ps) = c # text_of ps"
| "text_of (Tok m p1 p2 # ps) = m @ text_of ps"

text \<open>
  Where the pattern of the code begins, told from the text alone: \<open>s\<close> starts with
  \<open>@class:\<close>, \<open>@layout:\<close> or \<open>@module:\<close> and an identifier character comes next.
\<close>

definition token_pattern_at :: "string \<Rightarrow> bool" where
  "token_pattern_at s =
     list_ex
       (\<lambda>kw. take (length (''@'' @ kw @ '':'')) s = ''@'' @ kw @ '':'' \<and>
             (case drop (length (''@'' @ kw @ '':'')) s of
                [] \<Rightarrow> False
              | c # r \<Rightarrow> is_ident_char c))
       [''class'', ''layout'', ''module'']"

fun contains_token_pattern :: "string \<Rightarrow> bool" where
  "contains_token_pattern [] = False"
| "contains_token_pattern (c # cs) = (token_pattern_at (c # cs) \<or> contains_token_pattern cs)"

text \<open>
  A markup token as the specification words it (sections 3 and 4.1): a class token is
  \<open>@class:\<close> and a name; a layout or module token is \<open>@layout:\<close> or \<open>@module:\<close>, a name,
  \<open>::\<close> and a sub-name, and the sub-name is required.
\<close>

definition spec_token_at :: "string \<Rightarrow> bool" where
  "spec_token_at s =
     ((take 7 s = ''@class:'' \<and> (case drop 7 s of [] \<Rightarrow> False | c # r \<Rightarrow> is_ident_char c)) \<or>
      list_ex
        (\<lambda>kw. take (length (''@'' @ kw @ '':'')) s = ''@'' @ kw @ '':'' \<and>
              takeWhile is_ident_char (drop (length (''@'' @ kw @ '':'')) s) \<noteq> [] \<and>
              take 2 (dropWhile is_ident_char (drop (length (''@'' @ kw @ '':'')) s)) = ''::'' \<and>
              (case drop 2 (dropWhile is_ident_char (drop (length (''@'' @ kw @ '':'')) s)) of
                 [] \<Rightarrow> False
               | c # r \<Rightarrow> is_ident_char c))
        [''layout'', ''module''])"

fun contains_spec_token :: "string \<Rightarrow> bool" where
  "contains_spec_token [] = False"
| "contains_spec_token (c # cs) = (spec_token_at (c # cs) \<or> contains_spec_token cs)"




text \<open>
  The transform as the specification words it (section 4.3, steps 1 to 3): the directive,
  when present, is substituted first, and the tokens are then resolved in the text that
  results. Precompiled mode.
\<close>

definition transform_spec :: "loader_env \<Rightarrow> string \<Rightarrow> error + string" where
  "transform_spec env s =
     replaceNenyrMakrup env (if includes_str s directive then replaceCss env s else s)"

text \<open>
  Substitution as the specification words it for live mode: each result is put at the
  place of its own match, in extraction order. \<open>rs\<close> are the results, one for each match.
\<close>

fun substitute_at_own_match :: "piece list \<Rightarrow> string list \<Rightarrow> string" where
  "substitute_at_own_match [] rs = []"
| "substitute_at_own_match (Lit c # ps) rs = c # substitute_at_own_match ps rs"
| "substitute_at_own_match (Tok m p1 p2 # ps) [] = m @ substitute_at_own_match ps []"
| "substitute_at_own_match (Tok m p1 p2 # ps) (r # rs) = r @ substitute_at_own_match ps rs"


text \<open>Artifacts and environments for the examples.\<close>

definition button_artifact :: GaladrielBuildType where
  "button_artifact =
     \<lparr>css = ''body{}'',
      trackingClasses =
        \<lparr>central = [''button'' \<mapsto> ''btn-1a2b''],
         layouts = Map.empty,
         modules = Map.empty\<rparr>\<rparr>"






text \<open>An artifact that resolves \<open>@layout:x::y\<close> to \<open>bb\<close> and \<open>@class:bb\<close> to \<open>zz\<close>.\<close>

definition names_artifact :: GaladrielBuildType where
  "names_artifact =
     \<lparr>css = [],
      trackingClasses =
        \<lparr>central = [''bb'' \<mapsto> ''zz''],
         layouts = [''x'' \<mapsto> [''y'' \<mapsto> ''bb'']],
         modules = Map.empty\<rparr>\<rparr>"

text \<open>
  The members of the inherited properties as ECMAScript 2022 defines them (Node.js 18 and
  20). \<open>__proto__\<close> yields \<open>Object.prototype\<close>, whose own \<open>__proto__\<close> is \<open>null\<close> and whose other
  properties are functions. Every other inherited name yields a function (\<open>constructor\<close>
  yields \<open>Object\<close>): its \<open>name\<close> is a string, its \<open>length\<close> a number, which is 0 for
  \<open>toString\<close>, \<open>valueOf\<close> and \<open>toLocaleString\<close>; the read of \<open>arguments\<close> or \<open>caller\<close> throws; what
  it inherits from \<open>Function.prototype\<close> and \<open>Object.prototype\<close> are functions or objects, and
  so are \<open>Object.prototype\<close> and the static methods of \<open>Object\<close>.
\<close>

definition Object_static_names :: "string list" where
  "Object_static_names =
     [''assign'', ''create'', ''defineProperties'', ''defineProperty'', ''entries'', ''freeze'',
      ''fromEntries'', ''getOwnPropertyDescriptor'', ''getOwnPropertyDescriptors'',
      ''getOwnPropertyNames'', ''getOwnPropertySymbols'', ''getPrototypeOf'', ''hasOwn'', ''is'',
      ''isExtensible'', ''isFrozen'', ''isSealed'', ''keys'', ''preventExtensions'', ''seal'',
      ''setPrototypeOf'', ''values'']"

definition ecma_inherited_member :: "string \<Rightarrow> string \<Rightarrow> error + jsval" where
  "ecma_inherited_member name key =
     (if name = ''__proto__'' then
        (if key = ''__proto__'' then Inr JFalsy
         else if key \<in> set Object_prototype_names then Inr JTruthy
         else Inr JUndefined)
      else if key = ''name'' then
        Inr (JString (if name = ''constructor'' then ''Object'' else name))
      else if key = ''length'' then
        Inr (if name \<in> set [''toString'', ''valueOf'', ''toLocaleString''] then JFalsy else JTruthy)
      else if key \<in> set [''arguments'', ''caller''] then Inl TypeError
      else if key \<in> set Object_prototype_names \<or> key \<in> set [''apply'', ''bind'', ''call'']
        then Inr JTruthy
      else if name = ''constructor'' \<and> (key = ''prototype'' \<or> key \<in> set Object_static_names)
        then Inr JTruthy
      else Inr JUndefined)"

definition build_env :: "GaladrielBuildType \<Rightarrow> loader_env" where
  "build_env a =
     \<lparr>IS_GALADRIEL_BUILD = True, GALADRIEL_SERVER_ADDR = ''null'',
      GALADRIEL_BUILD_DATA = Some a,
      axios_get = (\<lambda>url. Inl (AxiosError url)), settle_time = (\<lambda>i. i),
      inherited_member = ecma_inherited_member\<rparr>"

definition live_env :: "(string \<Rightarrow> error + string) \<Rightarrow> loader_env" where
  "live_env server =
     \<lparr>IS_GALADRIEL_BUILD = False, GALADRIEL_SERVER_ADDR = ''http://127.0.0.1:7000'',
      GALADRIEL_BUILD_DATA = None,
      axios_get = server, settle_time = (\<lambda>i. i),
      inherited_member = ecma_inherited_member\<rparr>"

text \<open>A development server that answers every request with the same text.\<close>

definition fixed_server :: "string \<Rightarrow> string \<Rightarrow> error + string" where
  "fixed_server r url = Inr r"

text \<open>
  A development server that gives the same answers as \<open>names_artifact\<close>: \<open>bb\<close> for
  \<open>@layout:x::y\<close>, and \<open>zz\<close> for every other request.
\<close>

definition names_server :: "string \<Rightarrow> error + string" where
  "names_server url =
     (if url = ''http://127.0.0.1:7000/collect-utility-class-names/@layout/x/y''
      then Inr ''bb'' else Inr ''zz'')"

text \<open>Hosts for the examples: an unsupported platform, and a Linux host on which all goes well.\<close>

definition sunos_host :: host where
  "sunos_host =
     \<lparr>os_platform = ''sunos'', os_arch = ''x64'', ldd_probe = Inr ''libc.so.1'',
      writer_open = None, axios_stream = (\<lambda>url. Inr 200), stream_end = Finish,
      binary_exists = True, chmod_error = None, spawn_build = Close (Some 0)\<rparr>"

definition linux_host :: host where
  "linux_host =
     \<lparr>os_platform = ''linux'', os_arch = ''x64'', ldd_probe = Inr ''libc.so.6 => /lib/libc.so.6'',
      writer_open = None, axios_stream = (\<lambda>url. Inr 200), stream_end = Finish,
      binary_exists = True, chmod_error = None, spawn_build = Close (Some 0)\<rparr>"

text \<open>The compilers whose \<open>beforeRun\<close> hook fires, in the order of the events.\<close>

fun fired :: "event list \<Rightarrow> nat list" where
  "fired [] = []"
| "fired (BeforeRun c # evs) = c # fired evs"
| "fired (Apply c # evs) = fired evs"
| "fired (Done c # evs) = fired evs"

text \<open>What holds after every sequence of events.\<close>

definition guard_inv :: "event list \<Rightarrow> plugin_state \<Rightarrow> bool" where
  "guard_inv evs st =
     (length (beforeRun_taps st) \<le> 1 \<and>
      (hasRunGaladrielBuild st = (beforeRun_taps st \<noteq> [])) \<and>
      count_list (effects st) RmSync \<le> (if hasRemovedGaladrielDir st then 1 else 0) \<and>
      count_list (effects st) BuildCall \<le> count_list (effects st) InstallCall \<and>
      count_list (effects st) InstallCall
        \<le> (case beforeRun_taps st of [] \<Rightarrow> 0 | c # cs \<Rightarrow> count_list (fired evs) c))"

section \<open>Properties of the scan\<close>

lemma text_of_scan: "text_of (scan s) = s"
proof (induction s rule: scan.induct)
  case 1
  show ?case by simp
next
  case (2 c cs)
  show ?case
  proof (cases "REGEX_at (c # cs)")
    case None
    with 2 show ?thesis by simp
  next
    case (Some r)
    obtain m p1 p2 rest where r: "r = (m, p1, p2, rest)" by (cases r) auto
    have split: "c # cs = m @ rest" using Some r REGEX_at_append by blast
    have ih: "text_of (scan rest) = rest"
      by (rule 2(2) [OF Some [unfolded r] refl refl refl])
    have "scan (c # cs) = Tok m p1 p2 # scan rest" using Some r by simp
    then have "text_of (scan (c # cs)) = m @ rest" using ih by simp
    then show ?thesis using split by simp
  qed
qed

lemma replace_pieces_no_matches:
  "matches_of ps = [] \<Longrightarrow> replace_pieces f ps = Inr (text_of ps)"
  by (induction ps rule: matches_of.induct) auto

lemma replace_regex_no_matches:
  "matchAll s = [] \<Longrightarrow> replace_regex f s = Inr s"
  unfolding matchAll_def replace_regex_def
  by (simp add: replace_pieces_no_matches text_of_scan)

lemma no_at_no_match: "CHR ''@'' \<notin> set s \<Longrightarrow> matchAll s = []"
proof (induction s)
  case Nil
  show ?case by (simp add: matchAll_def)
next
  case (Cons c cs)
  then have "REGEX_at (c # cs) = None" by (simp add: REGEX_at_def)
  with Cons show ?case by (simp add: matchAll_def)
qed

section \<open>Tokens in their context\<close>

lemma strip_prefix_before_at:
  "CHR ''@'' \<notin> set p \<Longrightarrow>
   strip_prefix p (x @ CHR ''@'' # t) = map_option (\<lambda>r. r @ CHR ''@'' # t) (strip_prefix p x)"
  by (induction p x rule: strip_prefix.induct) auto

lemma match_alt_before_at:
  "\<forall>k \<in> set ks. CHR ''@'' \<notin> set k \<Longrightarrow>
   match_alt ks (x @ CHR ''@'' # t) = map_option (\<lambda>(k, r). (k, r @ CHR ''@'' # t)) (match_alt ks x)"
  by (induction ks) (auto simp: strip_prefix_before_at split: option.splits)

lemma takeWhile_before_stop: "\<not> P a \<Longrightarrow> takeWhile P (xs @ a # t) = takeWhile P xs"
  by (induction xs) auto

lemma dropWhile_before_stop: "\<not> P a \<Longrightarrow> dropWhile P (xs @ a # t) = dropWhile P xs @ a # t"
  by (induction xs) auto

lemma at_not_ident: "\<not> is_ident_char (CHR ''@'')"
  by (simp add: is_ident_char_def)

lemma REGEX_at_before_at:
  assumes "x \<noteq> []"
  shows "REGEX_at (x @ CHR ''@'' # t) =
         map_option (\<lambda>(m, p1, p2, rest). (m, p1, p2, rest @ CHR ''@'' # t)) (REGEX_at x)"
proof -
  obtain c cs where x: "x = c # cs" using assms by (cases x) auto
  have first: "strip_prefix ''@'' (x @ CHR ''@'' # t) = map_option (\<lambda>r. r @ CHR ''@'' # t) (strip_prefix ''@'' x)"
    by (simp add: x)
  show ?thesis
    unfolding REGEX_at_def first
    by (auto simp: Let_def match_alt_before_at strip_prefix_before_at
        takeWhile_before_stop dropWhile_before_stop at_not_ident
        split: option.splits)
qed

lemma scan_append_token:
  "scan (x @ CHR ''@'' # t) = scan x @ scan (CHR ''@'' # t)"
proof (induction x rule: scan.induct)
  case 1
  show ?case by simp
next
  case (2 c cs)
  have app: "REGEX_at ((c # cs) @ CHR ''@'' # t) =
      map_option (\<lambda>(m, p1, p2, rest). (m, p1, p2, rest @ CHR ''@'' # t)) (REGEX_at (c # cs))"
    by (rule REGEX_at_before_at) simp
  show ?case
  proof (cases "REGEX_at (c # cs)")
    case None
    with app have "REGEX_at (c # cs @ CHR ''@'' # t) = None" by simp
    then have "scan ((c # cs) @ CHR ''@'' # t) = Lit c # scan (cs @ CHR ''@'' # t)" by simp
    also have "\<dots> = Lit c # scan cs @ scan (CHR ''@'' # t)" using 2(1) [OF None] by simp
    also have "\<dots> = scan (c # cs) @ scan (CHR ''@'' # t)" using None by simp
    finally show ?thesis .
  next
    case (Some r)
    obtain m p1 p2 rest where r: "r = (m, p1, p2, rest)" by (cases r) auto
    have ih: "scan (rest @ CHR ''@'' # t) = scan rest @ scan (CHR ''@'' # t)"
      by (rule 2(2) [OF Some [unfolded r] refl refl refl])
    from app Some r have "REGEX_at (c # cs @ CHR ''@'' # t) = Some (m, p1, p2, rest @ CHR ''@'' # t)"
      by simp
    then have "scan ((c # cs) @ CHR ''@'' # t) = Tok m p1 p2 # scan (rest @ CHR ''@'' # t)" by simp
    also have "\<dots> = Tok m p1 p2 # scan rest @ scan (CHR ''@'' # t)" using ih by simp
    also have "\<dots> = scan (c # cs) @ scan (CHR ''@'' # t)" using Some r by simp
    finally show ?thesis .
  qed
qed

lemma replace_pieces_append:
  "replace_pieces f (ps @ qs) =
     (case replace_pieces f ps of
        Inl e \<Rightarrow> Inl e
      | Inr a \<Rightarrow> (case replace_pieces f qs of Inl e \<Rightarrow> Inl e | Inr b \<Rightarrow> Inr (a @ b)))"
  by (induction f ps rule: replace_pieces.induct) (auto split: sum.splits)

lemma REGEX_at_starts_with_at:
  "REGEX_at s = Some (m, p1, p2, rest) \<Longrightarrow> \<exists>m'. m = CHR ''@'' # m'"
  unfolding REGEX_at_def
  by (auto simp: Let_def split: option.splits if_splits)

lemma replace_regex_token_in_context:
  assumes "REGEX_at (tok @ post) = Some (tok, p1, p2, post)"
  shows "replace_regex f (pre @ tok @ post) =
     (case replace_regex f pre of
        Inl e \<Rightarrow> Inl e
      | Inr a \<Rightarrow>
          (case f tok p1 p2 of
             Inl e \<Rightarrow> Inl e
           | Inr r \<Rightarrow> (case replace_regex f post of Inl e \<Rightarrow> Inl e | Inr b \<Rightarrow> Inr (a @ r @ b))))"
proof -
  obtain m' where tok: "tok = CHR ''@'' # m'"
    using REGEX_at_starts_with_at [OF assms] by blast
  have "scan (tok @ post) = Tok tok p1 p2 # scan post"
    using assms by (simp add: tok)
  moreover have "scan (pre @ tok @ post) = scan pre @ scan (tok @ post)"
    using scan_append_token [of pre "m' @ post"] by (simp add: tok)
  ultimately show ?thesis
    by (simp add: replace_regex_def replace_pieces_append split: sum.splits)
qed

lemma find_first_sound: "find_first pat s = Some (pre, post) \<Longrightarrow> s = pre @ pat @ post"
proof (induction s arbitrary: pre)
  case Nil
  then show ?case by (simp split: if_splits)
next
  case (Cons c cs)
  show ?case
  proof (cases "strip_prefix pat (c # cs)")
    case (Some rest)
    with Cons.prems have "pre = []" "post = rest" by simp_all
    then show ?thesis using strip_prefix_append [OF Some] by simp
  next
    case None
    with Cons.prems obtain pre' where "find_first pat cs = Some (pre', post)" "pre = c # pre'"
      by (auto split: option.splits)
    then show ?thesis using Cons.IH by simp
  qed
qed




section \<open>Properties of the token grammar\<close>

lemma colon_not_ident: "\<not> is_ident_char (CHR '':'')"
  by (simp add: is_ident_char_def)

lemma takeWhile_all: "list_all P xs \<Longrightarrow> takeWhile P xs = xs"
  by (induction xs) auto

lemma dropWhile_all: "list_all P xs \<Longrightarrow> dropWhile P xs = []"
  by (induction xs) auto

lemma takeWhile_all_then_stop: "list_all P xs \<Longrightarrow> \<not> P a \<Longrightarrow> takeWhile P (xs @ a # t) = xs"
  by (induction xs) auto

lemma dropWhile_all_then_stop: "list_all P xs \<Longrightarrow> \<not> P a \<Longrightarrow> dropWhile P (xs @ a # t) = a # t"
  by (induction xs) auto

lemma list_all_takeWhile: "list_all P (takeWhile P xs)"
  by (induction xs) auto

lemma REGEX_at_sound:
  assumes "REGEX_at s = Some (m, p1, p2, rest)"
  shows "(\<exists>kw \<in> set [''class'', ''layout'', ''module''].
            m = ''@'' @ kw @ '':'' @ p1 @ (case p2 of None \<Rightarrow> [] | Some q \<Rightarrow> ''::'' @ q)) \<and>
         p1 \<noteq> [] \<and> list_all is_ident_char p1 \<and>
         (case p2 of None \<Rightarrow> True | Some q \<Rightarrow> q \<noteq> [] \<and> list_all is_ident_char q)"
  using assms unfolding REGEX_at_def
  by (auto simp: Let_def list_all_takeWhile split: option.splits if_splits)

lemma REGEX_at_name_only:
  assumes "kw \<in> set [''class'', ''layout'', ''module'']" and "p1 \<noteq> []" and "list_all is_ident_char p1"
  shows "REGEX_at (''@'' @ kw @ '':'' @ p1) = Some (''@'' @ kw @ '':'' @ p1, p1, None, [])"
  using assms unfolding REGEX_at_def
  by (auto simp: Let_def takeWhile_all dropWhile_all)

lemma REGEX_at_name_and_subname:
  assumes "kw \<in> set [''class'', ''layout'', ''module'']" and "p1 \<noteq> []" and "list_all is_ident_char p1"
    and "q \<noteq> []" and "list_all is_ident_char q"
  shows "REGEX_at (''@'' @ kw @ '':'' @ p1 @ ''::'' @ q)
           = Some (''@'' @ kw @ '':'' @ p1 @ ''::'' @ q, p1, Some q, [])"
  using assms unfolding REGEX_at_def
  by (auto simp: Let_def takeWhile_all dropWhile_all takeWhile_all_then_stop
      dropWhile_all_then_stop colon_not_ident)

section \<open>The pattern and the first occurrence, told from the text\<close>

lemma strip_prefix_take_drop:
  "strip_prefix p s = (if take (length p) s = p then Some (drop (length p) s) else None)"
  by (induction p s rule: strip_prefix.induct) auto

lemma strip_prefix_self: "strip_prefix p (p @ t) = Some t"
  by (simp add: strip_prefix_take_drop)

lemma take_drop_head:
  "(take (length p) s = p \<and> (case drop (length p) s of [] \<Rightarrow> False | c # r \<Rightarrow> P c))
     = (\<exists>c r. s = p @ c # r \<and> P c)"
proof
  assume h: "take (length p) s = p \<and> (case drop (length p) s of [] \<Rightarrow> False | c # r \<Rightarrow> P c)"
  then obtain c r where d: "drop (length p) s = c # r" and pc: "P c"
    by (cases "drop (length p) s") auto
  have "s = take (length p) s @ drop (length p) s" by simp
  with h d have "s = p @ c # r" by simp
  with pc show "\<exists>c r. s = p @ c # r \<and> P c" by blast
next
  assume "\<exists>c r. s = p @ c # r \<and> P c"
  then show "take (length p) s = p \<and> (case drop (length p) s of [] \<Rightarrow> False | c # r \<Rightarrow> P c)"
    by auto
qed

lemma token_pattern_at_iff:
  "token_pattern_at s =
     (\<exists>kw \<in> set [''class'', ''layout'', ''module''].
        \<exists>c r. s = ''@'' @ kw @ '':'' @ c # r \<and> is_ident_char c)"
  unfolding token_pattern_at_def list_ex_iff take_drop_head by simp

lemma REGEX_at_after_keyword:
  assumes "kw \<in> set [''class'', ''layout'', ''module'']"
  shows "REGEX_at (''@'' @ kw @ '':'' @ t) =
     (let p1 = takeWhile is_ident_char t; s4 = dropWhile is_ident_char t in
      if p1 = [] then None
      else (case strip_prefix ''::'' s4 of
              None \<Rightarrow> Some (''@'' @ kw @ '':'' @ p1, p1, None, s4)
            | Some s5 \<Rightarrow>
                (let p2 = takeWhile is_ident_char s5; s6 = dropWhile is_ident_char s5 in
                 if p2 = [] then Some (''@'' @ kw @ '':'' @ p1, p1, None, s4)
                 else Some (''@'' @ kw @ '':'' @ p1 @ ''::'' @ p2, p1, Some p2, s6))))"
proof -
  consider "kw = ''class''" | "kw = ''layout''" | "kw = ''module''" using assms by auto
  then show ?thesis
  proof cases
    case 1
    show ?thesis unfolding 1 REGEX_at_def by simp
  next
    case 2
    show ?thesis unfolding 2 REGEX_at_def by simp
  next
    case 3
    show ?thesis unfolding 3 REGEX_at_def by simp
  qed
qed

lemma REGEX_at_pattern_start:
  assumes "kw \<in> set [''class'', ''layout'', ''module'']" and "is_ident_char c"
  shows "REGEX_at (''@'' @ kw @ '':'' @ c # r) \<noteq> None"
  unfolding REGEX_at_after_keyword [OF assms(1)]
  using assms(2) by (simp add: Let_def split: option.splits)

lemma REGEX_at_is_pattern: "(REGEX_at s = None) = (\<not> token_pattern_at s)"
proof (cases "REGEX_at s")
  case None
  have "\<not> token_pattern_at s"
  proof
    assume "token_pattern_at s"
    then obtain kw c r where "kw \<in> set [''class'', ''layout'', ''module'']"
      and "s = ''@'' @ kw @ '':'' @ c # r" and "is_ident_char c"
      unfolding token_pattern_at_iff by blast
    then have "REGEX_at s \<noteq> None" using REGEX_at_pattern_start by blast
    with None show False by simp
  qed
  with None show ?thesis by simp
next
  case (Some x)
  obtain m p1 p2 rest where x: "x = (m, p1, p2, rest)" by (cases x) auto
  note h = Some [unfolded x]
  from REGEX_at_sound [OF h] obtain kw where kw: "kw \<in> set [''class'', ''layout'', ''module'']"
    and m: "m = ''@'' @ kw @ '':'' @ p1 @ (case p2 of None \<Rightarrow> [] | Some q \<Rightarrow> ''::'' @ q)"
    and p1: "p1 \<noteq> []" "list_all is_ident_char p1"
    by blast
  obtain c p1' where c: "p1 = c # p1'" using p1(1) by (cases p1) auto
  have "is_ident_char c" using p1(2) c by simp
  moreover have "s = ''@'' @ kw @ '':'' @ c # (p1' @ (case p2 of None \<Rightarrow> [] | Some q \<Rightarrow> ''::'' @ q) @ rest)"
    using REGEX_at_append [OF h] m c by simp
  ultimately have "token_pattern_at s" unfolding token_pattern_at_iff using kw by blast
  with Some show ?thesis by simp
qed

lemma no_pattern_no_match: "\<not> contains_token_pattern s \<Longrightarrow> matchAll s = []"
proof (induction s)
  case Nil
  show ?case by (simp add: matchAll_def)
next
  case (Cons c cs)
  then have "\<not> token_pattern_at (c # cs)" by simp
  then have "REGEX_at (c # cs) = None" by (simp add: REGEX_at_is_pattern)
  with Cons show ?case by (simp add: matchAll_def)
qed

lemma match_is_pattern: "matchAll s = [] \<Longrightarrow> \<not> contains_token_pattern s"
proof (induction s rule: scan.induct)
  case 1
  show ?case by simp
next
  case (2 c cs)
  have none: "REGEX_at (c # cs) = None"
  proof (cases "REGEX_at (c # cs)")
    case None then show ?thesis .
  next
    case (Some r)
    obtain m p1 p2 rest where "r = (m, p1, p2, rest)" by (cases r) auto
    with Some 2(3) show ?thesis by (simp add: matchAll_def)
  qed
  then have "matchAll cs = []" using 2(3) by (simp add: matchAll_def)
  then have "\<not> contains_token_pattern cs" using 2(1) [OF none] by simp
  moreover have "\<not> token_pattern_at (c # cs)" using none by (simp add: REGEX_at_is_pattern)
  ultimately show ?case by simp
qed

lemma find_first_complete: "find_first pat (pre @ pat @ post) \<noteq> None"
proof (induction pre)
  case Nil
  show ?case
  proof (cases "pat @ post")
    case Nil then show ?thesis by simp
  next
    case (Cons c cs)
    have "strip_prefix pat (pat @ post) = Some post" by (rule strip_prefix_self)
    then show ?thesis using Cons by simp
  qed
next
  case (Cons x xs)
  then show ?case by (auto split: option.splits)
qed

lemma includes_str_iff: "includes_str s pat = (\<exists>pre post. s = pre @ pat @ post)"
proof
  assume "includes_str s pat"
  then obtain pre post where "find_first pat s = Some (pre, post)"
    by (auto simp: includes_str_def)
  then show "\<exists>pre post. s = pre @ pat @ post" using find_first_sound by blast
next
  assume "\<exists>pre post. s = pre @ pat @ post"
  then show "includes_str s pat" using find_first_complete by (auto simp: includes_str_def)
qed



section \<open>Substitution in live mode\<close>

lemma append_split:
  assumes "xs @ ys = zs @ ws" and "length zs \<le> length xs"
  shows "\<exists>t. xs = zs @ t \<and> ws = t @ ys"
proof -
  have "take (length zs) (xs @ ys) = take (length zs) (zs @ ws)" using assms(1) by simp
  then have z: "take (length zs) xs = zs" using assms(2) by simp
  have "drop (length zs) (xs @ ys) = drop (length zs) (zs @ ws)" using assms(1) by simp
  then have w: "ws = drop (length zs) xs @ ys" using assms(2) by simp
  have "xs = take (length zs) xs @ drop (length zs) xs" by simp
  then have "xs = zs @ drop (length zs) xs" using z by simp
  with w show ?thesis by blast
qed











lemma find_first_first_occurrence:
  assumes "c0 \<notin> set pat'" and "\<not> (\<exists>a b. pre = a @ (c0 # pat') @ b)"
  shows "find_first (c0 # pat') (pre @ (c0 # pat') @ post) = Some (pre, post)"
  using assms(2)
proof (induction pre)
  case Nil
  have "strip_prefix (c0 # pat') ((c0 # pat') @ post) = Some post" by (rule strip_prefix_self)
  then show ?case by simp
next
  case (Cons x xs)
  let ?pat = "c0 # pat'"
  have none: "strip_prefix ?pat ((x # xs) @ ?pat @ post) = None"
  proof (cases "strip_prefix ?pat ((x # xs) @ ?pat @ post)")
    case None then show ?thesis .
  next
    case (Some rest)
    have eq: "(x # xs) @ (?pat @ post) = ?pat @ rest" using strip_prefix_append [OF Some] by simp
    show ?thesis
    proof (cases "length ?pat \<le> length (x # xs)")
      case True
      from append_split [OF eq True] obtain t where "x # xs = ?pat @ t" by blast
      then have "x # xs = [] @ ?pat @ t" by simp
      with Cons.prems show ?thesis by blast
    next
      case False
      then have le: "length (x # xs) \<le> length ?pat" by simp
      from append_split [OF eq [symmetric] le] obtain t where p: "?pat = (x # xs) @ t"
        and q: "?pat @ post = t @ rest" by blast
      from p False have "t \<noteq> []" by auto
      then obtain y ys where t: "t = y # ys" by (cases t) auto
      from q t have "y = c0" by simp
      moreover from p t have "pat' = xs @ y # ys" by simp
      ultimately have "c0 \<in> set pat'" by simp
      with assms(1) show ?thesis by simp
    qed
  qed
  have "\<not> (\<exists>a b. xs = a @ ?pat @ b)"
  proof
    assume "\<exists>a b. xs = a @ ?pat @ b"
    then obtain a b where "xs = a @ ?pat @ b" by blast
    then have "x # xs = (x # a) @ ?pat @ b" by simp
    with Cons.prems show False by blast
  qed
  then have "find_first ?pat (xs @ ?pat @ post) = Some (xs, post)" by (rule Cons.IH)
  with none show ?case by simp
qed

lemma find_first_directive:
  assumes "\<not> (\<exists>a b. pre = a @ directive @ b)"
  shows "find_first directive (pre @ directive @ post) = Some (pre, post)"
proof -
  have d: "directive = CHR ''@'' # ''galadrielcss styles;''" by (simp add: directive_def)
  have "CHR ''@'' \<notin> set ''galadrielcss styles;''" by simp
  then show ?thesis using assms unfolding d by (rule find_first_first_occurrence)
qed

section \<open>The callback in its context\<close>

text \<open>
  What the callback returns for a token is put in the token's place, the text before and
  after being transformed in their turn.
\<close>

lemma token_replaced_in_context:
  assumes "REGEX_at (tok @ post) = Some (tok, p1, p2, post)"
    and "replaceCallback env tok p1 p2 = Inr r"
    and "replaceNenyrMakrup env pre = Inr pre'" and "replaceNenyrMakrup env post = Inr post'"
  shows "replaceNenyrMakrup env (pre @ tok @ post) = Inr (pre' @ r @ post')"
  using assms(3,4) unfolding replaceNenyrMakrup_def
  by (simp add: replace_regex_token_in_context [OF assms(1)] assms(2))



section \<open>The loader: identity on plain text\<close>

text \<open>
  C8, as amended. A string that does not contain the directive \<open>@galadrielcss styles;\<close>
  and in which no \<open>@class:\<close>, \<open>@layout:\<close> or \<open>@module:\<close> is followed by an identifier
  character comes back from the loader unchanged, in live mode and in precompiled mode
  alike, and no request is issued for it.
\<close>

theorem loader_identity_on_plain_text:
  assumes "\<not> (\<exists>pre post. s = pre @ directive @ post)" and "\<not> contains_token_pattern s"
  shows "galadrielWebpackLoader env (Str s) = ([], Inr (Str s))"
proof -
  have inc: "\<not> includes_str s directive" using assms(1) by (simp add: includes_str_iff)
  have nomatch: "matchAll s = []" using assms(2) by (rule no_pattern_no_match)
  show ?thesis
  proof (cases "IS_GALADRIEL_BUILD env")
    case True
    then show ?thesis
      using inc nomatch
      by (simp add: galadrielWebpackLoader_def replaceNenyrMakrup_def replace_regex_no_matches)
  next
    case False
    have "asyncReplaceNenyrMakrup env s = ([], Inr s)"
      using nomatch by (simp add: asyncReplaceNenyrMakrup_def Promise_all_def)
    with False show ?thesis
      using inc by (simp add: galadrielWebpackLoader_def)
  qed
qed

theorem loader_identity_on_plain_text_witness:
  "\<not> (\<exists>pre post. ''mail user@class.org; @layout: x'' = pre @ directive @ post) \<and>
   \<not> contains_token_pattern ''mail user@class.org; @layout: x'' \<and>
   galadrielWebpackLoader (build_env button_artifact) (Str ''mail user@class.org; @layout: x'')
     = ([], Inr (Str ''mail user@class.org; @layout: x'')) \<and>
   galadrielWebpackLoader (live_env (fixed_server ''y'')) (Str ''mail user@class.org; @layout: x'')
     = ([], Inr (Str ''mail user@class.org; @layout: x''))"
proof -
  have "\<not> includes_str ''mail user@class.org; @layout: x'' directive" by code_simp
  then have h1: "\<not> (\<exists>pre post. ''mail user@class.org; @layout: x'' = pre @ directive @ post)"
    by (simp add: includes_str_iff)
  have h2: "\<not> contains_token_pattern ''mail user@class.org; @layout: x''" by code_simp
  note inst = loader_identity_on_plain_text [OF h1 h2]
  show ?thesis
    using h1 h2 inst [of "build_env button_artifact"] inst [of "live_env (fixed_server ''y'')"]
    by blast
qed

text \<open>
  C8 as stated fails: \<open>see @layout:header\<close> holds no directive and no markup token of the
  specification, whose layout tokens require a sub-name, yet the loader is not the
  identity on it. In live mode a request is issued and the answer substituted; in
  precompiled mode, with an artifact that has no layout \<open>header\<close>, the loader fails.
\<close>

theorem layout_without_subname_is_resolved:
  "\<not> contains_spec_token ''see @layout:header'' \<and>
   \<not> includes_str ''see @layout:header'' directive \<and>
   galadrielWebpackLoader (live_env (fixed_server ''y'')) (Str ''see @layout:header'')
     = ([''http://127.0.0.1:7000/collect-utility-class-names/@layout/header''], Inr (Str ''see y'')) \<and>
   galadrielWebpackLoader (build_env button_artifact) (Str ''see @layout:header'')
     = ([], Inl TypeError)"
  by code_simp

section \<open>Precompiled mode: tokens without an entry\<close>

text \<open>
  A token whose lookup yields \<open>undefined\<close> is left as it is, wherever it stands in the
  text. The lookup yields \<open>undefined\<close> for a class token whose name is neither in \<open>central\<close>
  nor a name that every object inherits, and for a layout token whose outer name is in
  \<open>layouts\<close> and whose sub-name is neither in the inner table nor inherited.
\<close>

lemma missing_entry_left_in_place:
  assumes "REGEX_at (tok @ post) = Some (tok, p1, p2, post)"
    and "replaceValue_of env tok p1 p2 = Inr JUndefined"
    and "replaceNenyrMakrup env pre = Inr pre'" and "replaceNenyrMakrup env post = Inr post'"
  shows "replaceNenyrMakrup env (pre @ tok @ post) = Inr (pre' @ tok @ post')"
proof -
  have cb: "replaceCallback env tok p1 p2 = Inr tok"
    using assms(2) by (simp add: replaceCallback_def)
  show ?thesis
    by (rule token_replaced_in_context [OF assms(1) cb assms(3,4)])
qed

lemma missing_class_entry_is_undefined:
  assumes "GALADRIEL_BUILD_DATA env = Some art" and "central (trackingClasses art) n = None"
    and "n \<notin> set Object_prototype_names"
  shows "replaceValue_of env (''@class:'' @ n) n p2 = Inr JUndefined"
  using assms by (simp add: replaceValue_of_def startsWith_def get_property_def)

lemma missing_inner_entry_is_undefined:
  assumes "GALADRIEL_BUILD_DATA env = Some art" and "layouts (trackingClasses art) n = Some inner"
    and "inner sub = None" and "sub \<notin> set Object_prototype_names"
  shows "replaceValue_of env (''@layout:'' @ n @ ''::'' @ sub) n (Some sub) = Inr JUndefined"
  using assms
  by (simp add: replaceValue_of_def startsWith_def nested_lookup_def get_property_def property_key_def)

text \<open>
  A layout token whose outer name is not in \<open>layouts\<close> (and is not an inherited name) makes
  the whole transform fail: \<open>layouts[p1]\<close> is \<open>undefined\<close>, and the read of \<open>[p2]\<close> from it
  throws.
\<close>

lemma absent_outer_name_is_TypeError:
  assumes "REGEX_at (tok @ post) = Some (tok, p1, p2, post)"
    and "startsWith tok ''@layout''" and "\<not> startsWith tok ''@class''"
    and "GALADRIEL_BUILD_DATA env = Some art"
    and "layouts (trackingClasses art) p1 = None" and "p1 \<notin> set Object_prototype_names"
    and "replaceNenyrMakrup env pre = Inr pre'"
  shows "replaceNenyrMakrup env (pre @ tok @ post) = Inl TypeError"
proof -
  have cb: "replaceCallback env tok p1 p2 = Inl TypeError"
    using assms(2,3,4,5,6) by (simp add: replaceCallback_def replaceValue_of_def nested_lookup_def)
  show ?thesis
    using assms(7) unfolding replaceNenyrMakrup_def
    by (simp add: replace_regex_token_in_context [OF assms(1)] cb)
qed

text \<open>
  An outer name that is absent from \<open>layouts\<close> but inherited by every object does not
  throw: \<open>layouts['constructor']\<close> is the function \<open>Object\<close>, and \<open>@layout:constructor::name\<close> is
  replaced by its name.
\<close>

lemma inherited_outer_name_is_resolved:
  "galadrielWebpackLoader (build_env button_artifact) (Str ''a @layout:constructor::name b'')
     = ([], Inr (Str ''a Object b''))"
  by code_simp

text \<open>
  C1. In precompiled mode a token with no matching entry is meant to stay in the output
  unchanged, without an error, also when the outer name of a layout or module token is
  absent from the artifact. The loader does not do that for an absent outer name: with
  an artifact whose \<open>layouts\<close> is empty, the source \<open>a @layout:header::nav b\<close> is not
  passed through; the loader hands a \<open>TypeError\<close> to webpack's callback.
\<close>

theorem absent_outer_name_raises:
  "galadrielWebpackLoader (build_env button_artifact) (Str ''a @layout:header::nav b'')
     = ([], Inl TypeError)"
  by code_simp

section \<open>Precompiled mode: unescaping\<close>














section \<open>Precompiled mode: empty values\<close>

text \<open>
  A token whose entry is the empty string stays in the text as it is, and with an empty
  \<open>css\<close> field the text, directive included, comes back unchanged.
\<close>

lemma empty_entry_left_in_place:
  assumes "REGEX_at (tok @ post) = Some (tok, p1, p2, post)"
    and "replaceValue_of env tok p1 p2 = Inr (JString [])"
    and "replaceNenyrMakrup env pre = Inr pre'" and "replaceNenyrMakrup env post = Inr post'"
  shows "replaceNenyrMakrup env (pre @ tok @ post) = Inr (pre' @ tok @ post')"
proof -
  have cb: "replaceCallback env tok p1 p2 = Inr tok"
    using assms(2) by (simp add: replaceCallback_def)
  show ?thesis
    by (rule token_replaced_in_context [OF assms(1) cb assms(3,4)])
qed

lemma empty_css_leaves_text:
  assumes "GALADRIEL_BUILD_DATA env = Some art" and "css art = []"
  shows "replaceCss env s = s"
  using assms by (simp add: replaceCss_def)

text \<open>
  A class token with no entry of its own in \<open>central\<close> whose name is one that every
  object inherits: the lookup finds the inherited member, which is truthy and has no
  \<open>replaceAll\<close>, and the callback throws.
\<close>

lemma inherited_name_is_truthy:
  assumes "GALADRIEL_BUILD_DATA env = Some art" and "central (trackingClasses art) n = None"
    and "n \<in> set Object_prototype_names"
  shows "replaceCallback env (''@class:'' @ n) n p2 = Inl TypeError"
  using assms
  by (simp add: replaceCallback_def replaceValue_of_def startsWith_def get_property_def)


section \<open>The loader: directive and tokens\<close>

text \<open>
  C2, as amended. When the text contains the directive, the loader substitutes the first
  occurrence of the directive and does nothing else: the text before and after that
  occurrence comes back as it is, markup tokens included, and in live mode the only
  request is the one for the stylesheet. In precompiled mode the directive is replaced
  by the \<open>css\<close> field of the artifact, and the whole text comes back unchanged when
  there is no artifact or its \<open>css\<close> field is empty; in live mode the directive is replaced
  by the fetched stylesheet, and the loader fails when the request fails. In both modes
  dollar patterns of the inserted text are expanded as \<open>String.prototype.replace\<close> does.
\<close>

theorem directive_only:
  assumes "s = pre @ directive @ post" and "\<not> (\<exists>a b. pre = a @ directive @ b)"
  shows "galadrielWebpackLoader env (Str s) =
     (if IS_GALADRIEL_BUILD env then
        ([], Inr (Str (case GALADRIEL_BUILD_DATA env of
                         None \<Rightarrow> s
                       | Some art \<Rightarrow>
                           if css art = [] then s
                           else pre @ GetSubstitution directive pre post (css art) @ post)))
      else
        ([GALADRIEL_SERVER_ADDR env @ ''/fetch-css''],
         (case axios_get env (GALADRIEL_SERVER_ADDR env @ ''/fetch-css'') of
            Inl e \<Rightarrow> Inl e
          | Inr c \<Rightarrow> Inr (Str (pre @ GetSubstitution directive pre post c @ post)))))"
proof -
  have f: "find_first directive s = Some (pre, post)"
    unfolding assms(1) using assms(2) by (rule find_first_directive)
  have inc: "includes_str s directive" using f by (simp add: includes_str_def)
  have rep: "replace_str s directive x = pre @ GetSubstitution directive pre post x @ post" for x
    using f by (simp add: replace_str_def)
  show ?thesis
    using inc rep
    by (simp add: galadrielWebpackLoader_def replaceCss_def asyncReplaceCss_def Let_def
        split: option.splits sum.splits)
qed

theorem directive_only_witness:
  "''@class:bb @galadrielcss styles; @class:button'' = ''@class:bb '' @ directive @ '' @class:button'' \<and>
   \<not> (\<exists>a b. ''@class:bb '' = a @ directive @ b) \<and>
   galadrielWebpackLoader (build_env button_artifact) (Str ''@class:bb @galadrielcss styles; @class:button'')
     = ([], Inr (Str ''@class:bb body{} @class:button'')) \<and>
   galadrielWebpackLoader (build_env names_artifact) (Str ''@class:bb @galadrielcss styles; @class:button'')
     = ([], Inr (Str ''@class:bb @galadrielcss styles; @class:button'')) \<and>
   galadrielWebpackLoader (live_env (fixed_server ''p{}'')) (Str ''@class:bb @galadrielcss styles; @class:button'')
     = ([''http://127.0.0.1:7000/fetch-css''], Inr (Str ''@class:bb p{} @class:button''))"
proof -
  let ?s = "''@class:bb @galadrielcss styles; @class:button''"
  have h1: "?s = ''@class:bb '' @ directive @ '' @class:button''" by code_simp
  have "\<not> includes_str ''@class:bb '' directive" by code_simp
  then have h2: "\<not> (\<exists>a b. ''@class:bb '' = a @ directive @ b)" by (simp add: includes_str_iff)
  note inst = directive_only [OF h1 h2]
  have r1: "(if IS_GALADRIEL_BUILD (build_env button_artifact) then
        ([], Inr (Str (case GALADRIEL_BUILD_DATA (build_env button_artifact) of
                         None \<Rightarrow> ?s
                       | Some art \<Rightarrow>
                           if css art = [] then ?s
                           else ''@class:bb '' @ GetSubstitution directive ''@class:bb '' '' @class:button'' (css art) @ '' @class:button'')))
      else
        ([GALADRIEL_SERVER_ADDR (build_env button_artifact) @ ''/fetch-css''],
         (case axios_get (build_env button_artifact) (GALADRIEL_SERVER_ADDR (build_env button_artifact) @ ''/fetch-css'') of
            Inl e \<Rightarrow> Inl e
          | Inr c \<Rightarrow> Inr (Str (''@class:bb '' @ GetSubstitution directive ''@class:bb '' '' @class:button'' c @ '' @class:button'')))))
     = ([], Inr (Str ''@class:bb body{} @class:button''))"
    by code_simp
  have r2: "(if IS_GALADRIEL_BUILD (build_env names_artifact) then
        ([], Inr (Str (case GALADRIEL_BUILD_DATA (build_env names_artifact) of
                         None \<Rightarrow> ?s
                       | Some art \<Rightarrow>
                           if css art = [] then ?s
                           else ''@class:bb '' @ GetSubstitution directive ''@class:bb '' '' @class:button'' (css art) @ '' @class:button'')))
      else
        ([GALADRIEL_SERVER_ADDR (build_env names_artifact) @ ''/fetch-css''],
         (case axios_get (build_env names_artifact) (GALADRIEL_SERVER_ADDR (build_env names_artifact) @ ''/fetch-css'') of
            Inl e \<Rightarrow> Inl e
          | Inr c \<Rightarrow> Inr (Str (''@class:bb '' @ GetSubstitution directive ''@class:bb '' '' @class:button'' c @ '' @class:button'')))))
     = ([], Inr (Str ?s))"
    by code_simp
  have r3: "(if IS_GALADRIEL_BUILD (live_env (fixed_server ''p{}'')) then
        ([], Inr (Str (case GALADRIEL_BUILD_DATA (live_env (fixed_server ''p{}'')) of
                         None \<Rightarrow> ?s
                       | Some art \<Rightarrow>
                           if css art = [] then ?s
                           else ''@class:bb '' @ GetSubstitution directive ''@class:bb '' '' @class:button'' (css art) @ '' @class:button'')))
      else
        ([GALADRIEL_SERVER_ADDR (live_env (fixed_server ''p{}'')) @ ''/fetch-css''],
         (case axios_get (live_env (fixed_server ''p{}'')) (GALADRIEL_SERVER_ADDR (live_env (fixed_server ''p{}'')) @ ''/fetch-css'') of
            Inl e \<Rightarrow> Inl e
          | Inr c \<Rightarrow> Inr (Str (''@class:bb '' @ GetSubstitution directive ''@class:bb '' '' @class:button'' c @ '' @class:button'')))))
     = ([''http://127.0.0.1:7000/fetch-css''], Inr (Str ''@class:bb p{} @class:button''))"
    by code_simp
  show ?thesis
    using h1 h2 inst [of "build_env button_artifact", unfolded r1]
      inst [of "build_env names_artifact", unfolded r2]
      inst [of "live_env (fixed_server ''p{}'')", unfolded r3]
    by blast
qed

text \<open>
  C2 as stated fails: a text with the directive and a token gets the directive rewritten
  and the token left alone, where the transform of the specification rewrites both.
\<close>

theorem directive_excludes_tokens:
  "snd (galadrielWebpackLoader (build_env button_artifact) (Str ''@galadrielcss styles; @class:button''))
     = Inr (Str ''body{} @class:button'') \<and>
   transform_spec (build_env button_artifact) ''@galadrielcss styles; @class:button''
     = Inr ''body{} btn-1a2b'' \<and>
   snd (galadrielWebpackLoader (build_env button_artifact) (Str ''@galadrielcss styles; @class:button''))
     \<noteq> map_sum id Str (transform_spec (build_env button_artifact) ''@galadrielcss styles; @class:button'')"
  by code_simp

section \<open>The token grammar: one pattern for the three kinds\<close>

text \<open>
  C9, as amended. The three kinds share one pattern, \<open>@class\<close>, \<open>@layout\<close> or \<open>@module\<close>,
  a colon and a name, with an optional \<open>::\<close> and sub-name whatever the kind: every match
  has this shape, with a non-empty name and (when present) a non-empty sub-name made of
  the characters \<open>[a-zA-Z0-9_-]\<close>; and for each of the three kinds, both the form with
  a sub-name and the form without one are matched.
\<close>

theorem token_grammar:
  "(REGEX_at s = Some (m, p1, p2, rest) \<longrightarrow>
      s = m @ rest \<and>
      (\<exists>kw \<in> set [''class'', ''layout'', ''module''].
          m = ''@'' @ kw @ '':'' @ p1 @ (case p2 of None \<Rightarrow> [] | Some q \<Rightarrow> ''::'' @ q)) \<and>
      p1 \<noteq> [] \<and> list_all is_ident_char p1 \<and>
      (case p2 of None \<Rightarrow> True | Some q \<Rightarrow> q \<noteq> [] \<and> list_all is_ident_char q)) \<and>
   (kw \<in> set [''class'', ''layout'', ''module''] \<and> n \<noteq> [] \<and> list_all is_ident_char n \<longrightarrow>
      REGEX_at (''@'' @ kw @ '':'' @ n) = Some (''@'' @ kw @ '':'' @ n, n, None, [])) \<and>
   (kw \<in> set [''class'', ''layout'', ''module''] \<and> n \<noteq> [] \<and> list_all is_ident_char n \<and>
    sub \<noteq> [] \<and> list_all is_ident_char sub \<longrightarrow>
      REGEX_at (''@'' @ kw @ '':'' @ n @ ''::'' @ sub)
        = Some (''@'' @ kw @ '':'' @ n @ ''::'' @ sub, n, Some sub, []))"
proof (intro conjI impI)
  assume h: "REGEX_at s = Some (m, p1, p2, rest)"
  show "s = m @ rest" using REGEX_at_append [OF h] by simp
  show "\<exists>kw \<in> set [''class'', ''layout'', ''module''].
          m = ''@'' @ kw @ '':'' @ p1 @ (case p2 of None \<Rightarrow> [] | Some q \<Rightarrow> ''::'' @ q)"
    using REGEX_at_sound [OF h] by blast
  show "p1 \<noteq> []" using REGEX_at_sound [OF h] by blast
  show "list_all is_ident_char p1" using REGEX_at_sound [OF h] by blast
  show "case p2 of None \<Rightarrow> True | Some q \<Rightarrow> q \<noteq> [] \<and> list_all is_ident_char q"
    using REGEX_at_sound [OF h] by blast
next
  assume "kw \<in> set [''class'', ''layout'', ''module''] \<and> n \<noteq> [] \<and> list_all is_ident_char n"
  then show "REGEX_at (''@'' @ kw @ '':'' @ n) = Some (''@'' @ kw @ '':'' @ n, n, None, [])"
    using REGEX_at_name_only by blast
next
  assume "kw \<in> set [''class'', ''layout'', ''module''] \<and> n \<noteq> [] \<and> list_all is_ident_char n \<and>
    sub \<noteq> [] \<and> list_all is_ident_char sub"
  then show "REGEX_at (''@'' @ kw @ '':'' @ n @ ''::'' @ sub)
        = Some (''@'' @ kw @ '':'' @ n @ ''::'' @ sub, n, Some sub, [])"
    using REGEX_at_name_and_subname by blast
qed

theorem token_grammar_witness:
  "REGEX_at ''@module:card::title rest'' = Some (''@module:card::title'', ''card'', Some ''title'', '' rest'') \<and>
   ''@module:card::title rest'' = ''@module:card::title'' @ '' rest'' \<and>
   list_all is_ident_char ''card'' \<and> list_all is_ident_char ''title'' \<and>
   ''class'' \<in> set [''class'', ''layout'', ''module''] \<and> ''btn_1-A'' \<noteq> [] \<and>
   list_all is_ident_char ''btn_1-A'' \<and> ''x9'' \<noteq> [] \<and> list_all is_ident_char ''x9'' \<and>
   REGEX_at (''@'' @ ''class'' @ '':'' @ ''btn_1-A'')
     = Some (''@'' @ ''class'' @ '':'' @ ''btn_1-A'', ''btn_1-A'', None, []) \<and>
   REGEX_at (''@'' @ ''class'' @ '':'' @ ''btn_1-A'' @ ''::'' @ ''x9'')
     = Some (''@'' @ ''class'' @ '':'' @ ''btn_1-A'' @ ''::'' @ ''x9'', ''btn_1-A'', Some ''x9'', [])"
proof -
  have h1: "REGEX_at ''@module:card::title rest''
              = Some (''@module:card::title'', ''card'', Some ''title'', '' rest'')"
    by code_simp
  have h2: "''class'' \<in> set [''class'', ''layout'', ''module'']" by simp
  have h3: "''btn_1-A'' \<noteq> []" by simp
  have h4: "list_all is_ident_char ''btn_1-A''" by code_simp
  have h5: "''x9'' \<noteq> []" by simp
  have h6: "list_all is_ident_char ''x9''" by code_simp
  note inst = token_grammar
    [of "''@module:card::title rest''" "''@module:card::title''" "''card''" "Some ''title''" "'' rest''"
        "''class''" "''btn_1-A''" "''x9''"]
  from inst h1 have c1: "''@module:card::title rest'' = ''@module:card::title'' @ '' rest''"
    and c2: "list_all is_ident_char ''card''"
    and c3: "case Some ''title'' of None \<Rightarrow> True | Some q \<Rightarrow> q \<noteq> [] \<and> list_all is_ident_char q"
    by blast+
  from c3 have c3': "list_all is_ident_char ''title''" by simp
  from inst h2 h3 h4 have c4: "REGEX_at (''@'' @ ''class'' @ '':'' @ ''btn_1-A'')
     = Some (''@'' @ ''class'' @ '':'' @ ''btn_1-A'', ''btn_1-A'', None, [])"
    by blast
  from inst h2 h3 h4 h5 h6 have c5: "REGEX_at (''@'' @ ''class'' @ '':'' @ ''btn_1-A'' @ ''::'' @ ''x9'')
     = Some (''@'' @ ''class'' @ '':'' @ ''btn_1-A'' @ ''::'' @ ''x9'', ''btn_1-A'', Some ''x9'', [])"
    by blast
  show ?thesis using h1 c1 c2 c3' h2 h3 h4 h5 h6 c4 c5 by blast
qed

text \<open>
  C9 as stated fails: a class token is matched with a sub-name, and layout and module
  tokens are matched without one.
\<close>

theorem subname_optional_for_every_kind:
  "REGEX_at ''@class:btn::hover'' = Some (''@class:btn::hover'', ''btn'', Some ''hover'', []) \<and>
   REGEX_at ''@layout:header'' = Some (''@layout:header'', ''header'', None, []) \<and>
   REGEX_at ''@module:card'' = Some (''@module:card'', ''card'', None, [])"
  by code_simp

section \<open>Live mode: requests and substitution order\<close>

text \<open>
  One request is issued for each match, in extraction order, and when all requests
  succeed neither the requests nor the output depend on the completion order.
\<close>

lemma first_rejection_None: "(first_rejection t i rs = None) = list_all (\<lambda>r. \<not> isl r) rs"
proof (induction rs arbitrary: i)
  case Nil
  show ?case by simp
next
  case (Cons r rs)
  show ?case
  proof (cases r)
    case (Inl e)
    then show ?thesis by (simp split: option.splits)
  next
    case (Inr v)
    then show ?thesis using Cons.IH by simp
  qed
qed

lemma Promise_all_order_free:
  "Promise_all t rs = Inr vs \<Longrightarrow> Promise_all t' rs = Inr vs"
proof -
  assume h: "Promise_all t rs = Inr vs"
  then have none: "first_rejection t 0 rs = None"
    by (auto simp: Promise_all_def split: option.splits)
  then have "first_rejection t' 0 rs = None"
    by (simp add: first_rejection_None)
  with h none show ?thesis by (simp add: Promise_all_def)
qed

lemma one_request_for_each_match:
  "fst (asyncReplaceNenyrMakrup env s)
     = map (requestUrl (GALADRIEL_SERVER_ADDR env)) (map fst (matchAll s)) \<and>
   length (fst (asyncReplaceNenyrMakrup env s)) = length (matchAll s)"
  by (simp add: asyncReplaceNenyrMakrup_def Let_def)

lemma output_free_of_completion_order:
  assumes "snd (asyncReplaceNenyrMakrup env s) = Inr out"
  shows "asyncReplaceNenyrMakrup (env\<lparr>settle_time := t\<rparr>) s = asyncReplaceNenyrMakrup env s"
proof -
  define promises where
    "promises = map (axios_get env) (map (requestUrl (GALADRIEL_SERVER_ADDR env)) (map fst (matchAll s)))"
  have shape: "asyncReplaceNenyrMakrup e s =
      (map (requestUrl (GALADRIEL_SERVER_ADDR env)) (map fst (matchAll s)),
       case Promise_all (settle_time e) promises of
         Inl x \<Rightarrow> Inl x
       | Inr vs \<Rightarrow> Inr (substitute_each s (zip (map fst (matchAll s)) vs)))"
    if "axios_get e = axios_get env" and "GALADRIEL_SERVER_ADDR e = GALADRIEL_SERVER_ADDR env" for e
    using that unfolding asyncReplaceNenyrMakrup_def Let_def promises_def by simp
  from assms shape [of env] obtain vs where vs: "Promise_all (settle_time env) promises = Inr vs"
    by (cases "Promise_all (settle_time env) promises") auto
  have vs': "Promise_all t promises = Inr vs" using vs by (rule Promise_all_order_free)
  show ?thesis
    using vs vs' shape [of "env\<lparr>settle_time := t\<rparr>"] shape [of env] by simp
qed

text \<open>
  C6. In live mode each result is meant to be substituted at its own match. The loader
  does not do that for the source \<open>@class:@layout:x::y @class:bb\<close>, whose matches are
  \<open>@layout:x::y\<close> and \<open>@class:bb\<close>, when the server answers \<open>bb\<close> and \<open>zz\<close>: two requests are
  issued, and the output is \<open>zz @class:bb\<close>, where each result at its own match gives
  \<open>@class:bb zz\<close>, which is also what precompiled mode returns for the same text from an
  artifact with the same two values.
\<close>

theorem result_not_at_own_match:
  "matchAll ''@class:@layout:x::y @class:bb''
     = [(''@layout:x::y'', ''x'', Some ''y''), (''@class:bb'', ''bb'', None)] \<and>
   galadrielWebpackLoader (live_env names_server) (Str ''@class:@layout:x::y @class:bb'')
     = ([''http://127.0.0.1:7000/collect-utility-class-names/@layout/x/y'',
         ''http://127.0.0.1:7000/collect-utility-class-names/@class/bb/none''],
        Inr (Str ''zz @class:bb'')) \<and>
   map names_server
       [''http://127.0.0.1:7000/collect-utility-class-names/@layout/x/y'',
        ''http://127.0.0.1:7000/collect-utility-class-names/@class/bb/none'']
     = [Inr ''bb'', Inr ''zz''] \<and>
   substitute_at_own_match (scan ''@class:@layout:x::y @class:bb'') [''bb'', ''zz'']
     = ''@class:bb zz'' \<and>
   galadrielWebpackLoader (build_env names_artifact) (Str ''@class:@layout:x::y @class:bb'')
     = ([], Inr (Str ''@class:bb zz''))"
  by code_simp

section \<open>The platform resolver\<close>

text \<open>
  C4, as amended. \<open>verifyOS\<close> is a function of the platform, the architecture and the
  outcome of the C-library probe: (darwin, arm64) gives aarch64-apple-darwin, (darwin,
  x64) x86_64-apple-darwin, (win32, x64) x86_64-pc-windows-msvc, (linux, x64) with a
  probe that reports \<open>musl\<close> x86_64-unknown-linux-musl, and (linux, x64) otherwise, also
  when the probe fails, x86_64-unknown-linux-gnu. On darwin every architecture whose
  name does not contain \<open>x64\<close> gives aarch64-apple-darwin. A pair is unsupported when the
  platform is not darwin and it is not win32 or linux with an architecture whose name
  contains \<open>x64\<close>. The older \<open>verifyOS\<close> of \<open>src/index.ts\<close> differs on Linux: a failed
  probe, and a probe that reports neither \<open>musl\<close> nor \<open>libc.so\<close>, are unsupported there.
\<close>

theorem platform_resolver:
  "verifyOS probe ''darwin'' ''arm64'' = Some ''aarch64-apple-darwin'' \<and>
   verifyOS probe ''darwin'' ''x64'' = Some ''x86_64-apple-darwin'' \<and>
   verifyOS probe ''win32'' ''x64'' = Some ''x86_64-pc-windows-msvc'' \<and>
   (includes_str out ''musl'' \<longrightarrow> verifyOS (Inr out) ''linux'' ''x64'' = Some ''x86_64-unknown-linux-musl'') \<and>
   (\<not> includes_str out ''musl'' \<longrightarrow> verifyOS (Inr out) ''linux'' ''x64'' = Some ''x86_64-unknown-linux-gnu'') \<and>
   verifyOS (Inl e) ''linux'' ''x64'' = Some ''x86_64-unknown-linux-gnu'' \<and>
   (\<not> includes_str architecture ''x64'' \<longrightarrow>
      verifyOS probe ''darwin'' architecture = Some ''aarch64-apple-darwin'') \<and>
   (platform \<noteq> ''darwin'' \<and>
    \<not> ((platform = ''win32'' \<or> platform = ''linux'') \<and> includes_str architecture ''x64'') \<longrightarrow>
      verifyOS probe platform architecture = None) \<and>
   verifyOS_index (Inl e) ''linux'' ''x64'' = None \<and>
   (\<not> includes_str out ''musl'' \<and> \<not> includes_str out ''libc.so'' \<longrightarrow>
      verifyOS_index (Inr out) ''linux'' ''x64'' = None)"
proof -
  have x64: "includes_str ''x64'' ''x64''" by (simp add: includes_str_def)
  have arm: "\<not> includes_str ''arm64'' ''x64''" by (simp add: includes_str_def)
  show ?thesis
    by (auto simp: verifyOS_def verifyOS_index_def detectLinuxDistro_def x64 arm)
qed

theorem platform_resolver_witness:
  "includes_str ''musl libc (x86_64)'' ''musl'' \<and>
   verifyOS (Inr ''musl libc (x86_64)'') ''linux'' ''x64'' = Some ''x86_64-unknown-linux-musl'' \<and>
   \<not> includes_str ''libc.so.6'' ''musl'' \<and>
   verifyOS (Inr ''libc.so.6'') ''linux'' ''x64'' = Some ''x86_64-unknown-linux-gnu'' \<and>
   \<not> includes_str ''arm'' ''x64'' \<and>
   verifyOS (Inr ''libc.so.6'') ''darwin'' ''arm'' = Some ''aarch64-apple-darwin'' \<and>
   ''linux'' \<noteq> ''darwin'' \<and>
   verifyOS (Inr ''libc.so.6'') ''linux'' ''arm'' = None \<and>
   \<not> includes_str ''not a dynamic executable'' ''libc.so'' \<and>
   verifyOS_index (Inr ''not a dynamic executable'') ''linux'' ''x64'' = None"
proof -
  have h1: "includes_str ''musl libc (x86_64)'' ''musl''" by code_simp
  have h2: "\<not> includes_str ''libc.so.6'' ''musl''" by code_simp
  have h3: "\<not> includes_str ''arm'' ''x64''" by code_simp
  have h4: "''linux'' \<noteq> ''darwin''" by simp
  have h5: "\<not> includes_str ''not a dynamic executable'' ''musl''" by code_simp
  have h6: "\<not> includes_str ''not a dynamic executable'' ''libc.so''" by code_simp
  from platform_resolver [of _ "''musl libc (x86_64)''"] h1
  have c1: "verifyOS (Inr ''musl libc (x86_64)'') ''linux'' ''x64'' = Some ''x86_64-unknown-linux-musl''"
    by blast
  from platform_resolver [of _ "''libc.so.6''"] h2
  have c2: "verifyOS (Inr ''libc.so.6'') ''linux'' ''x64'' = Some ''x86_64-unknown-linux-gnu''"
    by blast
  from platform_resolver [of "Inr ''libc.so.6''" _ _ "''arm''"] h3
  have c3: "verifyOS (Inr ''libc.so.6'') ''darwin'' ''arm'' = Some ''aarch64-apple-darwin''"
    by blast
  from platform_resolver [of "Inr ''libc.so.6''" _ _ "''arm''" "''linux''"] h3 h4
  have c4: "verifyOS (Inr ''libc.so.6'') ''linux'' ''arm'' = None"
    by blast
  from platform_resolver [of _ "''not a dynamic executable''"] h5 h6
  have c5: "verifyOS_index (Inr ''not a dynamic executable'') ''linux'' ''x64'' = None"
    by blast
  show ?thesis using h1 c1 h2 c2 h3 c3 h4 c4 h6 c5 by blast
qed

text \<open>
  C4 as stated fails where it says that every other pair is unsupported: darwin with
  the architecture ppc64 is resolved to aarch64-apple-darwin.
\<close>

theorem darwin_other_arch_supported:
  "verifyOS (Inr []) ''darwin'' ''ppc64'' = Some ''aarch64-apple-darwin''"
  by code_simp

section \<open>Errors of install and build\<close>

text \<open>
  C3, as amended. The promise that \<open>handleBeforeRun\<close> hands to the \<open>beforeRun\<close> hook is never
  rejected. Every fatal error of the install and build steps that rejects the promise of
  \<open>installGaladrielCss\<close> or of \<open>startGaladrielBuild\<close> (an unsupported platform, a request that
  fails, a response whose status is outside 200 to 299 or inside it and other than 200, a
  write error once the response is piped, a binary that is not there after the download,
  a build process that ends with a code other than 0 or cannot be started) is caught by
  \<open>handleBeforeRun\<close>, logged with \<open>console.error\<close>, and the promise of the hook is fulfilled;
  after a failed install the build is not started. Three failures are not caught, and
  none of them rejects the promise of the hook either: a write stream that fails to open
  and a \<open>chmodSync\<close> that throws end the process, and a download that breaks off, or a
  build process that does not exit, leaves the promise of the hook pending. The older
  handler of \<open>src/index.ts\<close> has no \<open>try\<close> block and rejects with what its install or build
  step rejected with.
\<close>

theorem beforeRun_errors_caught:
  "snd (handleBeforeRun h) \<noteq> Rejected e \<and>
   (verifyOS (ldd_probe h) (os_platform h) (os_arch h) = None \<longrightarrow>
      installGaladrielCss h
        = Rejected (Thrown (Error ''Unsupported OS or architecture. Galadriel CSS cannot run.''))) \<and>
   (verifyOS (ldd_probe h) (os_platform h) (os_arch h) = Some patch \<and> writer_open h = None \<longrightarrow>
      (axios_stream h (downloadUrl patch (os_platform h)) = Inl err \<longrightarrow>
         installGaladrielCss h = Rejected (Thrown err)) \<and>
      (axios_stream h (downloadUrl patch (os_platform h)) = Inr status \<and>
       (status < 200 \<or> 300 \<le> status) \<longrightarrow>
         installGaladrielCss h = Rejected (RequestFailed status)) \<and>
      (axios_stream h (downloadUrl patch (os_platform h)) = Inr status \<and>
       200 < status \<and> status < 300 \<longrightarrow>
         installGaladrielCss h = Rejected (HttpStatus status)) \<and>
      (axios_stream h (downloadUrl patch (os_platform h)) = Inr 200 \<and>
       stream_end h = WriteError err \<longrightarrow>
         installGaladrielCss h = Rejected (Thrown err)) \<and>
      (axios_stream h (downloadUrl patch (os_platform h)) = Inr 200 \<and>
       stream_end h = Finish \<and> \<not> binary_exists h \<longrightarrow>
         installGaladrielCss h = Rejected (Thrown (Error ''Galadriel CSS binary not found!''))) \<and>
      (axios_stream h (downloadUrl patch (os_platform h)) = Inr 200 \<and>
       stream_end h = BreaksOff \<longrightarrow>
         handleBeforeRun h = ([InstallCall], NeverSettles)) \<and>
      (axios_stream h (downloadUrl patch (os_platform h)) = Inr 200 \<and>
       stream_end h = Finish \<and> binary_exists h \<and> chmod_error h = Some err \<longrightarrow>
         handleBeforeRun h = ([InstallCall], ProcessDies err))) \<and>
   (verifyOS (ldd_probe h) (os_platform h) (os_arch h) = Some patch \<and> writer_open h = Some err \<longrightarrow>
      handleBeforeRun h = ([InstallCall], ProcessDies err)) \<and>
   (spawn_build h = Close code \<and> code \<noteq> Some 0 \<longrightarrow>
      startGaladrielBuild h = Rejected (ExitCode code)) \<and>
   (spawn_build h = SpawnError message \<longrightarrow>
      startGaladrielBuild h
        = Rejected (Thrown (Error (''Error executing Galadriel CSS build: '' @ message)))) \<and>
   (installGaladrielCss h = Fulfilled \<and> spawn_build h = NoExit \<longrightarrow>
      handleBeforeRun h = ([InstallCall, BuildCall], NeverSettles)) \<and>
   (installGaladrielCss h = Rejected e \<longrightarrow>
      handleBeforeRun h = ([InstallCall, ConsoleError e], Fulfilled)) \<and>
   (installGaladrielCss h = Fulfilled \<and> startGaladrielBuild h = Rejected e \<longrightarrow>
      handleBeforeRun h = ([InstallCall, BuildCall, ConsoleError e], Fulfilled)) \<and>
   (install = Rejected e \<longrightarrow> beforeRun_index install build = ([InstallCall], Rejected e)) \<and>
   (install = Fulfilled \<and> build = Rejected e \<longrightarrow>
      beforeRun_index install build = ([InstallCall, BuildCall], Rejected e))"
proof -
  have never: "snd (handleBeforeRun h) \<noteq> Rejected e"
    by (simp add: handleBeforeRun_def split: outcome.splits)
  have inst: "verifyOS (ldd_probe h) (os_platform h) (os_arch h) = None \<longrightarrow>
      installGaladrielCss h
        = Rejected (Thrown (Error ''Unsupported OS or architecture. Galadriel CSS cannot run.''))"
    by (simp add: installGaladrielCss_def)
  have dl: "verifyOS (ldd_probe h) (os_platform h) (os_arch h) = Some patch \<and> writer_open h = None \<longrightarrow>
      (axios_stream h (downloadUrl patch (os_platform h)) = Inl err \<longrightarrow>
         installGaladrielCss h = Rejected (Thrown err)) \<and>
      (axios_stream h (downloadUrl patch (os_platform h)) = Inr status \<and>
       (status < 200 \<or> 300 \<le> status) \<longrightarrow>
         installGaladrielCss h = Rejected (RequestFailed status)) \<and>
      (axios_stream h (downloadUrl patch (os_platform h)) = Inr status \<and>
       200 < status \<and> status < 300 \<longrightarrow>
         installGaladrielCss h = Rejected (HttpStatus status)) \<and>
      (axios_stream h (downloadUrl patch (os_platform h)) = Inr 200 \<and>
       stream_end h = WriteError err \<longrightarrow>
         installGaladrielCss h = Rejected (Thrown err)) \<and>
      (axios_stream h (downloadUrl patch (os_platform h)) = Inr 200 \<and>
       stream_end h = Finish \<and> \<not> binary_exists h \<longrightarrow>
         installGaladrielCss h = Rejected (Thrown (Error ''Galadriel CSS binary not found!''))) \<and>
      (axios_stream h (downloadUrl patch (os_platform h)) = Inr 200 \<and>
       stream_end h = BreaksOff \<longrightarrow>
         handleBeforeRun h = ([InstallCall], NeverSettles)) \<and>
      (axios_stream h (downloadUrl patch (os_platform h)) = Inr 200 \<and>
       stream_end h = Finish \<and> binary_exists h \<and> chmod_error h = Some err \<longrightarrow>
         handleBeforeRun h = ([InstallCall], ProcessDies err))"
    by (simp add: installGaladrielCss_def handleBeforeRun_def)
  have wr: "verifyOS (ldd_probe h) (os_platform h) (os_arch h) = Some patch \<and> writer_open h = Some err \<longrightarrow>
      handleBeforeRun h = ([InstallCall], ProcessDies err)"
    by (simp add: installGaladrielCss_def handleBeforeRun_def)
  have b1: "spawn_build h = Close code \<and> code \<noteq> Some 0 \<longrightarrow>
      startGaladrielBuild h = Rejected (ExitCode code)"
    by (simp add: startGaladrielBuild_def)
  have b2: "spawn_build h = SpawnError message \<longrightarrow>
      startGaladrielBuild h
        = Rejected (Thrown (Error (''Error executing Galadriel CSS build: '' @ message)))"
    by (simp add: startGaladrielBuild_def)
  have b3: "installGaladrielCss h = Fulfilled \<and> spawn_build h = NoExit \<longrightarrow>
      handleBeforeRun h = ([InstallCall, BuildCall], NeverSettles)"
    by (simp add: startGaladrielBuild_def handleBeforeRun_def)
  have c1: "installGaladrielCss h = Rejected e \<longrightarrow>
      handleBeforeRun h = ([InstallCall, ConsoleError e], Fulfilled)"
    by (simp add: handleBeforeRun_def)
  have c2: "installGaladrielCss h = Fulfilled \<and> startGaladrielBuild h = Rejected e \<longrightarrow>
      handleBeforeRun h = ([InstallCall, BuildCall, ConsoleError e], Fulfilled)"
    by (simp add: handleBeforeRun_def)
  have o1: "install = Rejected e \<longrightarrow> beforeRun_index install build = ([InstallCall], Rejected e)"
    by (simp add: beforeRun_index_def)
  have o2: "install = Fulfilled \<and> build = Rejected e \<longrightarrow>
      beforeRun_index install build = ([InstallCall, BuildCall], Rejected e)"
    by (simp add: beforeRun_index_def)
  show ?thesis
    using never inst dl wr b1 b2 b3 c1 c2 o1 o2 by blast
qed

theorem beforeRun_errors_caught_witness:
  "installGaladrielCss (linux_host\<lparr>spawn_build := Close (Some 1)\<rparr>) = Fulfilled \<and>
   startGaladrielBuild (linux_host\<lparr>spawn_build := Close (Some 1)\<rparr>) = Rejected (ExitCode (Some 1)) \<and>
   handleBeforeRun (linux_host\<lparr>spawn_build := Close (Some 1)\<rparr>)
     = ([InstallCall, BuildCall, ConsoleError (ExitCode (Some 1))], Fulfilled) \<and>
   verifyOS (ldd_probe sunos_host) (os_platform sunos_host) (os_arch sunos_host) = None \<and>
   handleBeforeRun sunos_host
     = ([InstallCall,
         ConsoleError (Thrown (Error ''Unsupported OS or architecture. Galadriel CSS cannot run.''))],
        Fulfilled) \<and>
   verifyOS (ldd_probe linux_host) (os_platform linux_host) (os_arch linux_host)
     = Some ''x86_64-unknown-linux-gnu'' \<and>
   handleBeforeRun (linux_host\<lparr>axios_stream := (\<lambda>url. Inr 404)\<rparr>)
     = ([InstallCall, ConsoleError (RequestFailed 404)], Fulfilled) \<and>
   handleBeforeRun (linux_host\<lparr>axios_stream := (\<lambda>url. Inr 204)\<rparr>)
     = ([InstallCall, ConsoleError (HttpStatus 204)], Fulfilled) \<and>
   handleBeforeRun (linux_host\<lparr>axios_stream := (\<lambda>url. Inl (AxiosError ''ETIMEDOUT''))\<rparr>)
     = ([InstallCall, ConsoleError (Thrown (AxiosError ''ETIMEDOUT''))], Fulfilled) \<and>
   handleBeforeRun (linux_host\<lparr>binary_exists := False\<rparr>)
     = ([InstallCall, ConsoleError (Thrown (Error ''Galadriel CSS binary not found!''))], Fulfilled) \<and>
   handleBeforeRun (linux_host\<lparr>writer_open := Some (SystemError ''EACCES'')\<rparr>)
     = ([InstallCall], ProcessDies (SystemError ''EACCES'')) \<and>
   handleBeforeRun (linux_host\<lparr>stream_end := BreaksOff\<rparr>) = ([InstallCall], NeverSettles) \<and>
   handleBeforeRun (linux_host\<lparr>spawn_build := NoExit\<rparr>) = ([InstallCall, BuildCall], NeverSettles) \<and>
   beforeRun_index (Rejected (ExitCode (Some 1))) Fulfilled
     = ([InstallCall], Rejected (ExitCode (Some 1))) \<and>
   beforeRun_index Fulfilled (Rejected (ExitCode (Some 1)))
     = ([InstallCall, BuildCall], Rejected (ExitCode (Some 1)))"
proof -
  let ?p = "''x86_64-unknown-linux-gnu''"
  have v: "verifyOS (ldd_probe linux_host) (os_platform linux_host) (os_arch linux_host) = Some ?p"
    by code_simp
  have vs: "verifyOS (ldd_probe sunos_host) (os_platform sunos_host) (os_arch sunos_host) = None"
    by code_simp
  have wo: "writer_open linux_host = None" and se: "stream_end linux_host = Finish"
    and be: "binary_exists linux_host"
    by (simp_all add: linux_host_def)
  have ax: "axios_stream linux_host u = Inr 200" for u
    by (simp add: linux_host_def)

  let ?h = "linux_host\<lparr>spawn_build := Close (Some 1)\<rparr>"
  have h0: "installGaladrielCss ?h = Fulfilled" by code_simp
  have h1: "spawn_build ?h = Close (Some 1) \<and> Some (1::int) \<noteq> Some 0" by simp
  from beforeRun_errors_caught
    [where h = ?h and code = "Some 1" and e = "ExitCode (Some 1)" and patch = ?p and err = "SystemError ''EACCES''" and status = 404 and message = "[]" and install = Fulfilled and build = Fulfilled] h1
  have h2: "startGaladrielBuild ?h = Rejected (ExitCode (Some 1))" by simp
  from beforeRun_errors_caught
    [where h = ?h and e = "ExitCode (Some 1)" and patch = ?p and err = "SystemError ''EACCES''" and status = 404 and code = "Some 1" and message = "[]" and install = Fulfilled and build = Fulfilled] h0 h2
  have h3: "handleBeforeRun ?h = ([InstallCall, BuildCall, ConsoleError (ExitCode (Some 1))], Fulfilled)"
    by simp

  from beforeRun_errors_caught
    [where h = sunos_host and e = "ExitCode (Some 1)" and patch = ?p and err = "SystemError ''EACCES''" and status = 404 and code = "Some 1" and message = "[]" and install = Fulfilled and build = Fulfilled] vs
  have s1: "installGaladrielCss sunos_host
        = Rejected (Thrown (Error ''Unsupported OS or architecture. Galadriel CSS cannot run.''))"
    by simp
  from beforeRun_errors_caught
    [where h = sunos_host
       and e = "Thrown (Error ''Unsupported OS or architecture. Galadriel CSS cannot run.'')" and patch = ?p and err = "SystemError ''EACCES''" and status = 404 and code = "Some 1" and message = "[]" and install = Fulfilled and build = Fulfilled] s1
  have s2: "handleBeforeRun sunos_host
     = ([InstallCall,
         ConsoleError (Thrown (Error ''Unsupported OS or architecture. Galadriel CSS cannot run.''))],
        Fulfilled)"
    by simp

  let ?d = "linux_host\<lparr>axios_stream := (\<lambda>url. Inr 404)\<rparr>"
  have d0: "verifyOS (ldd_probe ?d) (os_platform ?d) (os_arch ?d) = Some ?p \<and> writer_open ?d = None"
    using v wo by simp
  have d1: "axios_stream ?d (downloadUrl ?p (os_platform ?d)) = Inr 404 \<and> ((404::nat) < 200 \<or> 300 \<le> (404::nat))"
    by simp
  from beforeRun_errors_caught
    [where h = ?d and patch = ?p and status = 404 and e = "ExitCode (Some 1)" and err = "SystemError ''EACCES''" and code = "Some 1" and message = "[]" and install = Fulfilled and build = Fulfilled] d0 d1
  have d2: "installGaladrielCss ?d = Rejected (RequestFailed 404)" by simp
  from beforeRun_errors_caught
    [where h = ?d and e = "RequestFailed 404" and patch = ?p and err = "SystemError ''EACCES''" and status = 404 and code = "Some 1" and message = "[]" and install = Fulfilled and build = Fulfilled] d2
  have d3: "handleBeforeRun ?d = ([InstallCall, ConsoleError (RequestFailed 404)], Fulfilled)" by simp

  let ?n = "linux_host\<lparr>axios_stream := (\<lambda>url. Inr 204)\<rparr>"
  have n0: "verifyOS (ldd_probe ?n) (os_platform ?n) (os_arch ?n) = Some ?p \<and> writer_open ?n = None"
    using v wo by simp
  have n1: "axios_stream ?n (downloadUrl ?p (os_platform ?n)) = Inr 204 \<and> (200::nat) < 204 \<and> (204::nat) < 300"
    by simp
  from beforeRun_errors_caught
    [where h = ?n and patch = ?p and status = 204 and e = "ExitCode (Some 1)" and err = "SystemError ''EACCES''" and code = "Some 1" and message = "[]" and install = Fulfilled and build = Fulfilled] n0 n1
  have n2: "installGaladrielCss ?n = Rejected (HttpStatus 204)" by simp
  from beforeRun_errors_caught
    [where h = ?n and e = "HttpStatus 204" and patch = ?p and err = "SystemError ''EACCES''" and status = 404 and code = "Some 1" and message = "[]" and install = Fulfilled and build = Fulfilled] n2
  have n3: "handleBeforeRun ?n = ([InstallCall, ConsoleError (HttpStatus 204)], Fulfilled)" by simp

  let ?t = "linux_host\<lparr>axios_stream := (\<lambda>url. Inl (AxiosError ''ETIMEDOUT''))\<rparr>"
  have t0: "verifyOS (ldd_probe ?t) (os_platform ?t) (os_arch ?t) = Some ?p \<and> writer_open ?t = None"
    using v wo by simp
  have t1: "axios_stream ?t (downloadUrl ?p (os_platform ?t)) = Inl (AxiosError ''ETIMEDOUT'')"
    by simp
  from beforeRun_errors_caught
    [where h = ?t and patch = ?p and err = "AxiosError ''ETIMEDOUT''" and e = "ExitCode (Some 1)" and status = 404 and code = "Some 1" and message = "[]" and install = Fulfilled and build = Fulfilled] t0 t1
  have t2: "installGaladrielCss ?t = Rejected (Thrown (AxiosError ''ETIMEDOUT''))" by simp
  from beforeRun_errors_caught
    [where h = ?t and e = "Thrown (AxiosError ''ETIMEDOUT'')" and patch = ?p and err = "SystemError ''EACCES''" and status = 404 and code = "Some 1" and message = "[]" and install = Fulfilled and build = Fulfilled] t2
  have t3: "handleBeforeRun ?t = ([InstallCall, ConsoleError (Thrown (AxiosError ''ETIMEDOUT''))], Fulfilled)"
    by simp

  let ?m = "linux_host\<lparr>binary_exists := False\<rparr>"
  have m0: "verifyOS (ldd_probe ?m) (os_platform ?m) (os_arch ?m) = Some ?p \<and> writer_open ?m = None"
    using v wo by simp
  have m1: "axios_stream ?m (downloadUrl ?p (os_platform ?m)) = Inr 200 \<and> stream_end ?m = Finish
            \<and> \<not> binary_exists ?m"
    using ax se by simp
  from beforeRun_errors_caught
    [where h = ?m and patch = ?p and e = "ExitCode (Some 1)" and err = "SystemError ''EACCES''" and status = 404 and code = "Some 1" and message = "[]" and install = Fulfilled and build = Fulfilled] m0 m1
  have m2: "installGaladrielCss ?m = Rejected (Thrown (Error ''Galadriel CSS binary not found!''))"
    by simp
  from beforeRun_errors_caught
    [where h = ?m and e = "Thrown (Error ''Galadriel CSS binary not found!'')" and patch = ?p and err = "SystemError ''EACCES''" and status = 404 and code = "Some 1" and message = "[]" and install = Fulfilled and build = Fulfilled] m2
  have m3: "handleBeforeRun ?m
              = ([InstallCall, ConsoleError (Thrown (Error ''Galadriel CSS binary not found!''))], Fulfilled)"
    by simp

  let ?w = "linux_host\<lparr>writer_open := Some (SystemError ''EACCES'')\<rparr>"
  have w0: "verifyOS (ldd_probe ?w) (os_platform ?w) (os_arch ?w) = Some ?p
            \<and> writer_open ?w = Some (SystemError ''EACCES'')"
    using v by simp
  from beforeRun_errors_caught
    [where h = ?w and patch = ?p and err = "SystemError ''EACCES''" and e = "ExitCode (Some 1)" and status = 404 and code = "Some 1" and message = "[]" and install = Fulfilled and build = Fulfilled] w0
  have w1: "handleBeforeRun ?w = ([InstallCall], ProcessDies (SystemError ''EACCES''))" by simp

  let ?b = "linux_host\<lparr>stream_end := BreaksOff\<rparr>"
  have b0: "verifyOS (ldd_probe ?b) (os_platform ?b) (os_arch ?b) = Some ?p \<and> writer_open ?b = None"
    using v wo by simp
  have b1: "axios_stream ?b (downloadUrl ?p (os_platform ?b)) = Inr 200 \<and> stream_end ?b = BreaksOff"
    using ax by simp
  from beforeRun_errors_caught
    [where h = ?b and patch = ?p and e = "ExitCode (Some 1)" and err = "SystemError ''EACCES''" and status = 404 and code = "Some 1" and message = "[]" and install = Fulfilled and build = Fulfilled] b0 b1
  have b2: "handleBeforeRun ?b = ([InstallCall], NeverSettles)" by simp

  let ?x = "linux_host\<lparr>spawn_build := NoExit\<rparr>"
  have x0: "installGaladrielCss ?x = Fulfilled \<and> spawn_build ?x = NoExit"
    by code_simp
  from beforeRun_errors_caught
    [where h = ?x and e = "ExitCode (Some 1)" and patch = ?p and err = "SystemError ''EACCES''" and status = 404 and code = "Some 1" and message = "[]" and install = Fulfilled and build = Fulfilled] x0
  have x1: "handleBeforeRun ?x = ([InstallCall, BuildCall], NeverSettles)" by simp

  from beforeRun_errors_caught
    [where e = "ExitCode (Some 1)" and install = "Rejected (ExitCode (Some 1))" and build = Fulfilled and h = linux_host and patch = ?p and err = "SystemError ''EACCES''" and status = 404 and code = "Some 1" and message = "[]"]
  have o1: "beforeRun_index (Rejected (ExitCode (Some 1))) Fulfilled
              = ([InstallCall], Rejected (ExitCode (Some 1)))"
    by simp
  from beforeRun_errors_caught
    [where e = "ExitCode (Some 1)" and install = Fulfilled and build = "Rejected (ExitCode (Some 1))" and h = linux_host and patch = ?p and err = "SystemError ''EACCES''" and status = 404 and code = "Some 1" and message = "[]"]
  have o2: "beforeRun_index Fulfilled (Rejected (ExitCode (Some 1)))
              = ([InstallCall, BuildCall], Rejected (ExitCode (Some 1)))"
    by simp
  show ?thesis
    using h0 h2 h3 vs s2 v d3 n3 t3 m3 w1 b2 x1 o1 o2 by simp
qed

text \<open>
  C3 as stated fails: on an unsupported platform the install rejects, and the handler
  of the \<open>beforeRun\<close> hook logs the error and fulfils its promise.
\<close>

theorem unsupported_platform_swallowed:
  "installGaladrielCss sunos_host
     = Rejected (Thrown (Error ''Unsupported OS or architecture. Galadriel CSS cannot run.'')) \<and>
   handleBeforeRun sunos_host
     = ([InstallCall,
         ConsoleError (Thrown (Error ''Unsupported OS or architecture. Galadriel CSS cannot run.''))],
        Fulfilled)"
  by code_simp

section \<open>The lifecycle guard\<close>

lemma fired_append: "fired (xs @ ys) = fired xs @ fired ys"
  by (induction xs rule: fired.induct) auto

lemma times_invariant:
  assumes "\<And>s. P s \<Longrightarrow> P (f s)" and "P st"
  shows "P (times n f st)"
  using assms(2) by (induction n arbitrary: st) (auto intro: assms(1))

lemma handleBeforeRun_counts:
  "count_list (fst (handleBeforeRun h)) InstallCall = 1 \<and>
   count_list (fst (handleBeforeRun h)) BuildCall \<le> 1 \<and>
   count_list (fst (handleBeforeRun h)) RmSync = 0"
  by (simp add: handleBeforeRun_def split: outcome.splits)

lemma guard_inv_initial: "guard_inv [] (initial_state folder)"
  by (simp add: guard_inv_def initial_state_def)

lemma cleanup_keeps:
  "count_list (effects st) RmSync \<le> (if hasRemovedGaladrielDir st then 1 else 0) \<Longrightarrow>
   count_list (effects (cleanupAfterBuild st)) RmSync
     \<le> (if hasRemovedGaladrielDir (cleanupAfterBuild st) then 1 else 0) \<and>
   beforeRun_taps (cleanupAfterBuild st) = beforeRun_taps st \<and>
   hasRunGaladrielBuild (cleanupAfterBuild st) = hasRunGaladrielBuild st \<and>
   count_list (effects (cleanupAfterBuild st)) InstallCall = count_list (effects st) InstallCall \<and>
   count_list (effects (cleanupAfterBuild st)) BuildCall = count_list (effects st) BuildCall"
  by (auto simp: cleanupAfterBuild_def removeGaladrielTempFolder_def split: if_splits)

lemma guard_inv_cleanup: "guard_inv evs st \<Longrightarrow> guard_inv evs (cleanupAfterBuild st)"
  using cleanup_keeps [of st] by (auto simp: guard_inv_def)

lemma guard_inv_more_events: "guard_inv evs st \<Longrightarrow> guard_inv (evs @ [ev]) st"
  by (auto simp: guard_inv_def fired_append split: list.splits intro: le_trans)

lemma guard_inv_apply: "guard_inv evs st \<Longrightarrow> guard_inv evs (apply_plugin True c st)"
  by (auto simp: guard_inv_def apply_plugin_def setupProductionHooks_def Let_def)

lemma guard_inv_beforeRun:
  assumes "guard_inv evs st"
  shows "guard_inv (evs @ [BeforeRun c])
           (times (count_list (beforeRun_taps st) c) (run_handleBeforeRun h) st)"
proof (cases "beforeRun_taps st")
  case Nil
  with assms show ?thesis by (simp add: guard_inv_def)
next
  case (Cons c0 cs)
  with assms have cs: "cs = []" by (simp add: guard_inv_def)
  show ?thesis
  proof (cases "c0 = c")
    case False
    with Cons cs assms show ?thesis
      by (auto simp: guard_inv_def fired_append)
  next
    case True
    have n: "count_list (beforeRun_taps st) c = Suc 0" using Cons cs True by simp
    show ?thesis
      using assms Cons cs True handleBeforeRun_counts [of h]
      by (auto simp: n guard_inv_def fired_append run_handleBeforeRun_def)
  qed
qed

lemma guard_inv_step: "guard_inv evs st \<Longrightarrow> guard_inv (evs @ [ev]) (step h st ev)"
proof (cases ev)
  case (Apply c)
  assume "guard_inv evs st"
  then show ?thesis
    using Apply guard_inv_more_events guard_inv_apply by (simp add: step_def)
next
  case (BeforeRun c)
  assume "guard_inv evs st"
  then show ?thesis using BeforeRun guard_inv_beforeRun by (simp add: step_def)
next
  case (Done c)
  assume "guard_inv evs st"
  then have "guard_inv (evs @ [ev]) st" by (rule guard_inv_more_events)
  then have "guard_inv (evs @ [ev]) (times (count_list (done_taps st) c) cleanupAfterBuild st)"
    by (rule times_invariant [rotated]) (rule guard_inv_cleanup)
  then show ?thesis using Done by (simp add: step_def)
qed

lemma guard_inv_run: "guard_inv evs (run h folder evs)"
proof (induction evs rule: rev_induct)
  case Nil
  show ?case by (simp add: run_def guard_inv_initial)
next
  case (snoc ev evs)
  then show ?case using guard_inv_step [of evs "run h folder evs" ev h] by (simp add: run_def)
qed

lemma flags_monotone_step:
  "(hasRunGaladrielBuild st \<longrightarrow> hasRunGaladrielBuild (step h st ev)) \<and>
   (hasRemovedGaladrielDir st \<longrightarrow> hasRemovedGaladrielDir (step h st ev))"
proof -
  have a: "hasRunGaladrielBuild s \<Longrightarrow> hasRunGaladrielBuild (times n (run_handleBeforeRun h) s)" for s n
    by (rule times_invariant) (simp_all add: run_handleBeforeRun_def)
  have b: "hasRemovedGaladrielDir s \<Longrightarrow> hasRemovedGaladrielDir (times n (run_handleBeforeRun h) s)" for s n
    by (rule times_invariant) (simp_all add: run_handleBeforeRun_def)
  have c: "hasRunGaladrielBuild s \<Longrightarrow> hasRunGaladrielBuild (times n cleanupAfterBuild s)" for s n
    by (rule times_invariant) (simp_all add: cleanupAfterBuild_def removeGaladrielTempFolder_def)
  have d: "hasRemovedGaladrielDir s \<Longrightarrow> hasRemovedGaladrielDir (times n cleanupAfterBuild s)" for s n
    by (rule times_invariant) (simp_all add: cleanupAfterBuild_def removeGaladrielTempFolder_def)
  show ?thesis
    by (cases ev) (auto simp: step_def apply_plugin_def setupProductionHooks_def Let_def a b c d)
qed

lemma flags_monotone_foldl:
  "(hasRunGaladrielBuild st \<longrightarrow> hasRunGaladrielBuild (foldl (step h) st evs)) \<and>
   (hasRemovedGaladrielDir st \<longrightarrow> hasRemovedGaladrielDir (foldl (step h) st evs))"
proof (induction evs arbitrary: st)
  case Nil
  show ?case by simp
next
  case (Cons ev evs)
  show ?case using flags_monotone_step [of st h ev] Cons [of "step h st ev"] by auto
qed

lemma distinct_count_le_1: "distinct xs \<Longrightarrow> count_list xs c \<le> Suc 0"
  by (induction xs) auto

lemma repeated_firing:
  "beforeRun_taps st = [c] \<Longrightarrow>
   beforeRun_taps (foldl (step h) st (replicate n (BeforeRun c))) = [c] \<and>
   count_list (effects (foldl (step h) st (replicate n (BeforeRun c)))) InstallCall
     = count_list (effects st) InstallCall + n"
proof (induction n arbitrary: st)
  case 0
  then show ?case by simp
next
  case (Suc n)
  let ?st = "step h st (BeforeRun c)"
  have one: "?st = run_handleBeforeRun h st"
    using Suc.prems by (simp add: step_def)
  have taps: "beforeRun_taps ?st = [c]"
    using Suc.prems by (simp add: one run_handleBeforeRun_def)
  have cnt: "count_list (effects ?st) InstallCall = count_list (effects st) InstallCall + 1"
    using handleBeforeRun_counts [of h] by (simp add: one run_handleBeforeRun_def)
  show ?case using Suc.IH [OF taps] cnt by simp
qed

text \<open>
  C5, as amended. The two flags only ever go from false to true. The first flag guards
  the registration of the install and build handler, not its runs: however often the
  plugin is applied, the handler is tapped on at most one \<open>beforeRun\<close> hook, so when no
  compiler's \<open>beforeRun\<close> hook fires more than once, at most one install and at most one
  build are performed; but each firing of the hook that holds the handler performs an
  install again (n firings, n installs). The second flag guards the cleanup itself: however
  often \<open>done\<close> fires, the folder is removed at most once, and a cleanup after the first
  changes nothing.
\<close>

theorem lifecycle_guard:
  "length (beforeRun_taps (run h folder evs)) \<le> 1 \<and>
   count_list (effects (run h folder evs)) RmSync \<le> 1 \<and>
   (hasRemovedGaladrielDir st \<longrightarrow> cleanupAfterBuild st = st) \<and>
   (hasRunGaladrielBuild (run h folder evs) \<longrightarrow> hasRunGaladrielBuild (run h folder (evs @ later))) \<and>
   (hasRemovedGaladrielDir (run h folder evs) \<longrightarrow> hasRemovedGaladrielDir (run h folder (evs @ later))) \<and>
   (distinct (fired evs) \<longrightarrow>
      count_list (effects (run h folder evs)) InstallCall \<le> 1 \<and>
      count_list (effects (run h folder evs)) BuildCall \<le> 1) \<and>
   count_list (effects (run h folder (Apply c # replicate n (BeforeRun c)))) InstallCall = n"
proof (intro conjI impI)
  note inv = guard_inv_run [of evs h folder, unfolded guard_inv_def]
  show "length (beforeRun_taps (run h folder evs)) \<le> 1" using inv by blast
  show "count_list (effects (run h folder evs)) RmSync \<le> 1"
    using inv by (auto split: if_splits)
  show "cleanupAfterBuild st = st" if "hasRemovedGaladrielDir st"
    using that by (simp add: cleanupAfterBuild_def)
  show "hasRunGaladrielBuild (run h folder (evs @ later))" if "hasRunGaladrielBuild (run h folder evs)"
    using that flags_monotone_foldl [of "run h folder evs" h later] by (simp add: run_def)
  show "hasRemovedGaladrielDir (run h folder (evs @ later))" if "hasRemovedGaladrielDir (run h folder evs)"
    using that flags_monotone_foldl [of "run h folder evs" h later] by (simp add: run_def)
  have i: "count_list (effects (run h folder evs)) InstallCall \<le> 1" if "distinct (fired evs)"
  proof (cases "beforeRun_taps (run h folder evs)")
    case Nil
    with inv show ?thesis by simp
  next
    case (Cons c0 cs)
    with inv have "count_list (effects (run h folder evs)) InstallCall \<le> count_list (fired evs) c0"
      by simp
    also have "\<dots> \<le> 1" using distinct_count_le_1 [OF that] by simp
    finally show ?thesis .
  qed
  then show "count_list (effects (run h folder evs)) InstallCall \<le> 1" if "distinct (fired evs)"
    using that by simp
  show "count_list (effects (run h folder evs)) BuildCall \<le> 1" if "distinct (fired evs)"
    using i [OF that] inv by linarith
next
  have taps: "beforeRun_taps (step h (initial_state folder) (Apply c)) = [c]"
    and none: "count_list (effects (step h (initial_state folder) (Apply c))) InstallCall = 0"
    by (simp_all add: step_def apply_plugin_def setupProductionHooks_def initial_state_def Let_def)
  show "count_list (effects (run h folder (Apply c # replicate n (BeforeRun c)))) InstallCall = n"
    using repeated_firing [OF taps, of h n] none by (simp add: run_def)
qed

theorem lifecycle_guard_witness:
  "distinct (fired [Apply 0, Apply 1, BeforeRun 0, BeforeRun 1, Done 0, Done 1]) \<and>
   effects (run linux_host False [Apply 0, Apply 1, BeforeRun 0, BeforeRun 1, Done 0, Done 1])
     = [InstallCall, BuildCall, RmSync] \<and>
   count_list (effects (run linux_host False [Apply 0, Apply 1, BeforeRun 0, BeforeRun 1, Done 0, Done 1]))
     InstallCall \<le> 1 \<and>
   hasRemovedGaladrielDir (run linux_host False [Apply 0, Apply 1, BeforeRun 0, BeforeRun 1, Done 0]) \<and>
   hasRemovedGaladrielDir (run linux_host False ([Apply 0, Apply 1, BeforeRun 0, BeforeRun 1, Done 0] @ [Done 1])) \<and>
   cleanupAfterBuild (run linux_host False [Apply 0, Apply 1, BeforeRun 0, BeforeRun 1, Done 0])
     = run linux_host False [Apply 0, Apply 1, BeforeRun 0, BeforeRun 1, Done 0]"
proof -
  let ?evs = "[Apply 0, Apply 1, BeforeRun 0, BeforeRun 1, Done 0, Done 1]"
  let ?evs5 = "[Apply 0, Apply 1, BeforeRun 0, BeforeRun 1, Done 0]"
  have h1: "distinct (fired ?evs)" by simp
  have h2: "effects (run linux_host False ?evs) = [InstallCall, BuildCall, RmSync]" by code_simp
  have h3: "hasRemovedGaladrielDir (run linux_host False ?evs5)" by code_simp
  from lifecycle_guard [of linux_host False ?evs] h1
  have c1: "count_list (effects (run linux_host False ?evs)) InstallCall \<le> 1" by blast
  from lifecycle_guard [of linux_host False ?evs5 _ "[Done 1]"] h3
  have c2: "hasRemovedGaladrielDir (run linux_host False (?evs5 @ [Done 1]))" by blast
  from lifecycle_guard [of _ _ _ "run linux_host False ?evs5"] h3
  have c3: "cleanupAfterBuild (run linux_host False ?evs5) = run linux_host False ?evs5" by blast
  show ?thesis using h1 h2 c1 h3 c2 c3 by blast
qed

text \<open>
  C5 as stated fails for the install and build step: when the \<open>beforeRun\<close> hook that
  holds the handler fires twice, the install and the build both run twice.
\<close>

theorem repeated_beforeRun_repeats_install:
  "effects (run linux_host False [Apply 0, BeforeRun 0, BeforeRun 0])
     = [InstallCall, BuildCall, InstallCall, BuildCall]"
  by code_simp

end
